theory Spec2Isabelle
  imports Main
begin

section \<open>Distributed batch translation: the per-rank procedure \<open>translate\<close>\<close>

text \<open>
  A shallow embedding of \<^verbatim>\<open>examples/nlp/machine_translation/translate_ddp.py\<close>.
  The script is one procedure, \<^verbatim>\<open>translate(rank, world_size, args)\<close>, that calls
  into torch, sacremoses and the NeMo collections. Those libraries are not part of the
  script: their calls are the fields of a record \<open>lib\<close> that every definition takes as
  a parameter, each returning either the message of the exception it raised or its value.
  What the script itself decides (which call is made, with what arguments, in what
  order, what is written where) is modelled as written, line by line.

  Python's exceptions are values of the type \<open>error\<close>; a local name that an
  \<^verbatim>\<open>if\<close>/\<^verbatim>\<open>elif\<close> chain may leave unbound is an \<open>option\<close>, and its use when
  unbound is \<open>UnboundLocalError\<close>. The file system, the log, the environment and the
  process group are fields of the record \<open>world\<close>, passed through the procedure.
  \<^verbatim>\<open>main\<close>, which spawns one process per device, is not modelled.
\<close>

subsection \<open>Errors\<close>

datatype error =
    UnboundLocalError string
  | ValueError
  | TypeError
  | FileExistsError string
  | FileNotFoundError string
  | NotADirectoryError string
  | IsADirectoryError string
  | LibraryError string

text \<open>Sequencing that stops at the first exception.\<close>

fun bindE :: "error + 'a \<Rightarrow> ('a \<Rightarrow> error + 'b) \<Rightarrow> error + 'b" where
  "bindE (Inl e) f = Inl e"
| "bindE (Inr x) f = f x"

text \<open>A call into a library: its exception, if any, propagates unchanged.\<close>

fun lib_call :: "string + 'a \<Rightarrow> error + 'a" where
  "lib_call (Inl msg) = Inl (LibraryError msg)"
| "lib_call (Inr x) = Inr x"

text \<open>The use of a local name: \<open>None\<close> is the unbound name.\<close>

fun use_local :: "string \<Rightarrow> 'a option \<Rightarrow> error + 'a" where
  "use_local name None = Inl (UnboundLocalError name)"
| "use_local name (Some x) = Inr x"

subsection \<open>Command-line arguments (\<^verbatim>\<open>get_args\<close>)\<close>

record args =
  model :: string
  text2translate :: string
  result_dir :: string
  twoside :: bool
  metadata_path :: string
  topk :: int
  source_lang :: string
  target_lang :: string
  reverse_lang_direction :: bool

subsection \<open>Strings\<close>

text \<open>\<^verbatim>\<open>str.endswith\<close>.\<close>

definition endswith :: "string \<Rightarrow> string \<Rightarrow> bool" where
  "endswith s suf =
     (length suf \<le> length s \<and> drop (length s - length suf) s = suf)"

definition startswith :: "string \<Rightarrow> string \<Rightarrow> bool" where
  "startswith s pre = (take (length pre) s = pre)"

text \<open>The decimal text of a non-negative integer, as an f-string prints it.\<close>

definition digit_char :: "nat \<Rightarrow> char" where
  "digit_char d = ''0123456789'' ! d"

function str_nat :: "nat \<Rightarrow> string" where
  "str_nat n = (if n < 10 then [digit_char n] else str_nat (n div 10) @ [digit_char (n mod 10)])"
  by pat_completeness auto
termination
  by (relation "measure (\<lambda>n. n)") auto

declare str_nat.simps [simp del]

text \<open>
  \<^verbatim>\<open>str.split()\<close> with no argument: the maximal runs of non-whitespace characters.
  A character of a string is a code point below 256, and the whitespace is what Python
  takes for whitespace among these: the ASCII whitespace, the four separators
  \<^verbatim>\<open>\x1c\<close> to \<^verbatim>\<open>\x1f\<close>, the next-line character \<^verbatim>\<open>\x85\<close> and the no-break space
  \<^verbatim>\<open>\xa0\<close>. Text with code points from 256 on is outside the model.
\<close>

definition is_space :: "char \<Rightarrow> bool" where
  "is_space c = (List.member
     [CHR 0x20, CHR 0x09, CHR 0x0A, CHR 0x0B, CHR 0x0C, CHR 0x0D,
      CHR 0x1C, CHR 0x1D, CHR 0x1E, CHR 0x1F, CHR 0x85, CHR 0xA0] c)"

fun split_from :: "string \<Rightarrow> string \<Rightarrow> string list" where
  "split_from cur [] = (if cur = [] then [] else [cur])"
| "split_from cur (c # cs) =
     (if is_space c
      then (if cur = [] then split_from [] cs else cur # split_from [] cs)
      else split_from (cur @ [c]) cs)"

definition split :: "string \<Rightarrow> string list" where
  "split s = split_from [] s"

text \<open>\<^verbatim>\<open>os.path.join(a, b)\<close> of \<^verbatim>\<open>posixpath\<close>, for two components.\<close>

definition os_path_join :: "string \<Rightarrow> string \<Rightarrow> string" where
  "os_path_join a b =
     (if startswith b ''/'' then b
      else if a = [] \<or> endswith a ''/'' then a @ b
      else a @ ''/'' @ b)"

subsection \<open>Tensors\<close>

datatype device = CPU | CUDA nat

record tensor =
  shape :: "nat list"
  elems :: "int list"
  device :: device

definition ndim :: "tensor \<Rightarrow> nat" where
  "ndim t = length (shape t)"

text \<open>
  \<^verbatim>\<open>Tensor.squeeze(dim=0)\<close>: torch removes dimension 0 when its size is 1 and returns
  the tensor unchanged otherwise.
\<close>

definition squeeze0 :: "tensor \<Rightarrow> tensor" where
  "squeeze0 t =
     (case shape t of
        [] \<Rightarrow> t
      | n # rest \<Rightarrow> (if n = 1 then t\<lparr>shape := rest\<rparr> else t))"

text \<open>\<^verbatim>\<open>Tensor.to(rank)\<close>: the same tensor on the device of that index.\<close>

definition to_device :: "tensor \<Rightarrow> nat \<Rightarrow> tensor" where
  "to_device t r = t\<lparr>device := CUDA r\<rparr>"

text \<open>\<^verbatim>\<open>Tensor.cpu().numpy()\<close>.\<close>

definition cpu_numpy :: "tensor \<Rightarrow> tensor" where
  "cpu_numpy t = t\<lparr>device := CPU\<rparr>"

text \<open>\<^verbatim>\<open>len(t)\<close>: the size of dimension 0; a 0-d tensor has no length.\<close>

definition tensor_len :: "tensor \<Rightarrow> error + nat" where
  "tensor_len t =
     (case shape t of
        [] \<Rightarrow> Inl TypeError
      | n # rest \<Rightarrow> Inr n)"

text \<open>\<^verbatim>\<open>for o in t\<close>: the slices along dimension 0, in order.\<close>

definition tensor_rows :: "tensor \<Rightarrow> error + tensor list" where
  "tensor_rows t =
     (case shape t of
        [] \<Rightarrow> Inl TypeError
      | n # rest \<Rightarrow>
          Inr (map (\<lambda>i. \<lparr>shape = rest,
                          elems = take (prod_list rest) (drop (i * prod_list rest) (elems t)),
                          device = device t\<rparr>) [0..<n]))"

subsection \<open>The libraries\<close>

text \<open>
  The two dataset classes, with the keyword arguments the script passes. The tokenizers
  are attributes of the model, so the model stands for them.
\<close>

datatype 'm dataset =
    TarredTranslationDataset
      (text_tar_filepaths: string) (ds_metadata_path: string)
      (encoder_tokenizer: 'm) (decoder_tokenizer: 'm)
      (shuffle_n: nat) (shard_strategy: string)
      (ds_world_size: nat) (global_rank: nat) (ds_reverse_lang_direction: bool)
  | TarredOneSideTranslationDataset
      (text_tar_filepaths: string) (ds_metadata_path: string)
      (tokenizer: 'm)
      (shuffle_n: nat) (shard_strategy: string)
      (ds_world_size: nat) (global_rank: nat)

datatype detokenizer =
    MosesDetokenizer string
  | PanguJiebaDetokenizer
  | SentencePieceDetokenizer

text \<open>
  The library calls of the script. \<open>forward m src_ids src_mask\<close> is the call
  \<^verbatim>\<open>ddp_model(src_ids, src_mask, None, None)\<close>; \<open>samples\<close> gives the samples that
  iterating a dataset object yields, each a list of tensors, a shard being finite.
\<close>

record 'm lib =
  init_process_group :: "string \<Rightarrow> nat \<Rightarrow> nat \<Rightarrow> string + unit"
  destroy_process_group :: "unit \<Rightarrow> string + unit"
  restore_from :: "string \<Rightarrow> string + 'm"
  load_from_checkpoint :: "string \<Rightarrow> string + 'm"
  replace_beam_with_sampling :: "'m \<Rightarrow> int \<Rightarrow> string + 'm"
  model_to :: "'m \<Rightarrow> nat \<Rightarrow> string + 'm"
  DDP :: "'m \<Rightarrow> nat list \<Rightarrow> string + 'm"
  eval_mode :: "'m \<Rightarrow> string + 'm"
  forward :: "'m \<Rightarrow> tensor \<Rightarrow> tensor \<Rightarrow> string + tensor"
  encoder_ids_to_text :: "'m \<Rightarrow> tensor \<Rightarrow> string + string"
  decoder_ids_to_text :: "'m \<Rightarrow> tensor \<Rightarrow> string + string"
  samples :: "'m dataset \<Rightarrow> string + tensor list list"
  moses_detokenize :: "string \<Rightarrow> string list \<Rightarrow> string + string"
  pangu_jieba_detokenize :: "string list \<Rightarrow> string + string"
  sentencepiece_detokenize :: "string list \<Rightarrow> string + string"

text \<open>\<^verbatim>\<open>d.detokenize(tokens)\<close>: the method of the object's class.\<close>

fun detokenize :: "'m lib \<Rightarrow> detokenizer \<Rightarrow> string list \<Rightarrow> error + string" where
  "detokenize L (MosesDetokenizer lang) toks = lib_call (moses_detokenize L lang toks)"
| "detokenize L PanguJiebaDetokenizer toks = lib_call (pangu_jieba_detokenize L toks)"
| "detokenize L SentencePieceDetokenizer toks = lib_call (sentencepiece_detokenize L toks)"

text \<open>
  \<^verbatim>\<open>DataLoader(dataset, batch_size=1)\<close>: every sample of the dataset is one batch, and
  the default collate function stacks the one sample along a new dimension 0 of size 1,
  giving a list with one tensor per field of the sample.
\<close>

definition unsqueeze0 :: "tensor \<Rightarrow> tensor" where
  "unsqueeze0 t = t\<lparr>shape := 1 # shape t\<rparr>"

definition DataLoader :: "tensor list list \<Rightarrow> tensor list list" where
  "DataLoader ds = map (map unsqueeze0) ds"

subsection \<open>The world\<close>

text \<open>
  A file is the list of the strings written to it, in order: its text is their
  concatenation. Directories carry no content of their own.
\<close>

datatype node = Dir | File "string list"

record world =
  fs :: "string \<Rightarrow> node option"
  open_files :: "string list"
  environ :: "string \<Rightarrow> string option"
  process_group :: "(string \<times> nat \<times> nat) option"
  grad_enabled :: bool
  log_lines :: "string list"

definition logging_info :: "string \<Rightarrow> world \<Rightarrow> world" where
  "logging_info msg w = w\<lparr>log_lines := log_lines w @ [msg]\<rparr>"

text \<open>
  Names in the file system are compared as they are written: \<^verbatim>\<open>.\<close>, \<^verbatim>\<open>..\<close>, repeated
  slashes and links are not resolved. A name made of slashes only is the root, which is
  always a directory, and the current directory, the parent of a name with no slash, is a
  directory too.

  \<^verbatim>\<open>posixpath.split(p)\<close>: the part after the last slash, and the part up to it,
  stripped of its trailing slashes unless it consists of slashes only.
\<close>

definition all_slashes :: "string \<Rightarrow> bool" where
  "all_slashes p = (p = replicate (length p) CHR ''/'')"

definition rstrip_slashes :: "string \<Rightarrow> string" where
  "rstrip_slashes p = rev (dropWhile (\<lambda>c. c = CHR ''/'') (rev p))"

definition path_split :: "string \<Rightarrow> string \<times> string" where
  "path_split p =
     (let tail = rev (takeWhile (\<lambda>c. c \<noteq> CHR ''/'') (rev p));
          head = take (length p - length tail) p
      in (if head \<noteq> [] \<and> \<not> all_slashes head then rstrip_slashes head else head, tail))"

text \<open>
  The first lines of \<^verbatim>\<open>os.makedirs\<close>: the name is split, and split once more when it
  ends in a slash. The head is the directory that holds the name.
\<close>

definition makedirs_split :: "string \<Rightarrow> string \<times> string" where
  "makedirs_split name =
     (let (head, tail) = path_split name
      in if tail = [] then path_split head else (head, tail))"

definition path_lookup :: "world \<Rightarrow> string \<Rightarrow> node option" where
  "path_lookup w p = (if p \<noteq> [] \<and> all_slashes p then Some Dir else fs w p)"

definition parent_lookup :: "world \<Rightarrow> string \<Rightarrow> node option" where
  "parent_lookup w p =
     (if fst (makedirs_split p) = [] then Some Dir
      else path_lookup w (fst (makedirs_split p)))"

text \<open>
  \<^verbatim>\<open>os.mkdir(name)\<close>: the directory that holds the name must exist and be a directory,
  and the name must be free.
\<close>

definition os_mkdir :: "string \<Rightarrow> world \<Rightarrow> error + world" where
  "os_mkdir name w =
     (if name = [] then Inl (FileNotFoundError name)
      else case parent_lookup w name of
        None \<Rightarrow> Inl (FileNotFoundError name)
      | Some (File cs) \<Rightarrow> Inl (NotADirectoryError name)
      | Some Dir \<Rightarrow>
          (case path_lookup w name of
             None \<Rightarrow> Inr (w\<lparr>fs := (fs w)(name \<mapsto> Dir)\<rparr>)
           | Some nd \<Rightarrow> Inl (FileExistsError name)))"

text \<open>
  The last lines of \<^verbatim>\<open>os.makedirs\<close>: \<^verbatim>\<open>mkdir(name)\<close>, whose error is dropped when
  \<^verbatim>\<open>exist_ok\<close> is set and the name is a directory.
\<close>

definition mkdir_leaf :: "string \<Rightarrow> bool \<Rightarrow> world \<Rightarrow> error + world" where
  "mkdir_leaf name exist_ok w =
     (case os_mkdir name w of
        Inr w1 \<Rightarrow> Inr w1
      | Inl e \<Rightarrow> (if exist_ok \<and> path_lookup w name = Some Dir then Inr w else Inl e))"

fun is_FileExistsError :: "error \<Rightarrow> bool" where
  "is_FileExistsError (FileExistsError p) = True"
| "is_FileExistsError e = False"

text \<open>
  \<^verbatim>\<open>os.makedirs(name, exist_ok=...)\<close>, as the standard library defines it: when the
  directory that holds the name does not exist it is made first, by the same procedure
  (a \<^verbatim>\<open>FileExistsError\<close> of that call is passed over); then the name itself is made,
  unless its last part is \<^verbatim>\<open>.\<close>.
\<close>

function os_makedirs :: "string \<Rightarrow> bool \<Rightarrow> world \<Rightarrow> error + world" where
  "os_makedirs name exist_ok w =
     (if fst (makedirs_split name) \<noteq> [] \<and> snd (makedirs_split name) \<noteq> []
         \<and> path_lookup w (fst (makedirs_split name)) = None
      then bindE (case os_makedirs (fst (makedirs_split name)) exist_ok w of
                    Inl e \<Rightarrow> (if is_FileExistsError e then Inr w else Inl e)
                  | Inr w1 \<Rightarrow> Inr w1)
             (\<lambda>w1. if snd (makedirs_split name) = ''.'' then Inr w1
                   else mkdir_leaf name exist_ok w1)
      else mkdir_leaf name exist_ok w)"
  by pat_completeness auto
termination
proof -
  have strip: "length (rstrip_slashes h) \<le> length h" for h
    using length_dropWhile_le [of "\<lambda>c. c = CHR ''/''" "rev h"] by (simp add: rstrip_slashes_def)
  have parts: "length (fst (path_split p)) + length (snd (path_split p)) \<le> length p" for p
  proof -
    define t where "t = rev (takeWhile (\<lambda>c. c \<noteq> CHR ''/'') (rev p))"
    have t: "length t \<le> length p"
      using length_takeWhile_le [of "\<lambda>c. c \<noteq> CHR ''/''" "rev p"] by (simp add: t_def)
    have "length (fst (path_split p)) \<le> length (take (length p - length t) p)"
      using strip [of "take (length p - length t) p"]
      by (simp add: path_split_def Let_def t_def)
    then have h: "length (fst (path_split p)) \<le> length p - length t" by simp
    have s: "length (snd (path_split p)) = length t"
      by (simp add: path_split_def Let_def t_def)
    from t h s show ?thesis by arith
  qed
  have shorter: "length (fst (makedirs_split name)) < length name"
    if a: "snd (makedirs_split name) \<noteq> []" for name
  proof -
    obtain h t where s: "path_split name = (h, t)" by (cases "path_split name")
    from parts [of name] s have l: "length h + length t \<le> length name" by simp
    show ?thesis
    proof (cases "t = []")
      case True
      with s have m: "makedirs_split name = path_split h" by (simp add: makedirs_split_def)
      from parts [of h] a m l show ?thesis by (cases "snd (path_split h)") auto
    next
      case False
      with s have "makedirs_split name = (h, t)" by (simp add: makedirs_split_def)
      with l False show ?thesis by (cases t) auto
    qed
  qed
  show ?thesis
    by (relation "measure (\<lambda>(name, exist_ok, w). length name)") (auto simp: shorter)
qed

declare os_makedirs.simps [simp del]

text \<open>\<^verbatim>\<open>open(path, 'w')\<close>: the file is created, or truncated when it exists.\<close>

definition open_w :: "string \<Rightarrow> world \<Rightarrow> error + world" where
  "open_w path w =
     (case fs w path of
        Some Dir \<Rightarrow> Inl (IsADirectoryError path)
      | _ \<Rightarrow> Inr (w\<lparr>fs := (fs w)(path \<mapsto> File []), open_files := open_files w @ [path]\<rparr>))"

definition file_chunks :: "world \<Rightarrow> string \<Rightarrow> string list" where
  "file_chunks w path = (case fs w path of Some (File cs) \<Rightarrow> cs | _ \<Rightarrow> [])"

text \<open>\<^verbatim>\<open>f.write(s)\<close> on the file opened at \<open>path\<close>: \<open>s\<close> goes after what is there.\<close>

definition file_write :: "string \<Rightarrow> string \<Rightarrow> world \<Rightarrow> world" where
  "file_write path s w = w\<lparr>fs := (fs w)(path \<mapsto> File (file_chunks w path @ [s]))\<rparr>"

definition file_close :: "string \<Rightarrow> world \<Rightarrow> world" where
  "file_close path w = w\<lparr>open_files := removeAll path (open_files w)\<rparr>"

subsection \<open>Joining and leaving the process group\<close>

text \<open>
  The script's first function, lines 58 to 63, here \<open>setup_group\<close>: its own name is a
  keyword of Isabelle.
\<close>

definition setup_group :: "'m lib \<Rightarrow> nat \<Rightarrow> nat \<Rightarrow> args \<Rightarrow> world \<Rightarrow> error + world" where
  "setup_group L r world_size a w =
     (let w1 = w\<lparr>environ := (environ w)(''MASTER_ADDR'' \<mapsto> ''localhost'')\<rparr>;
          w2 = w1\<lparr>environ := (environ w1)(''MASTER_PORT'' \<mapsto> ''12355'')\<rparr>
      in bindE (lib_call (init_process_group L ''gloo'' r world_size))
           (\<lambda>u. Inr (w2\<lparr>process_group := Some (''gloo'', r, world_size)\<rparr>)))"

definition cleanup :: "'m lib \<Rightarrow> world \<Rightarrow> error + world" where
  "cleanup L w =
     bindE (lib_call (destroy_process_group L ()))
       (\<lambda>u. Inr (w\<lparr>process_group := None\<rparr>))"

subsection \<open>\<^verbatim>\<open>translate\<close>, block by block\<close>

text \<open>
  Lines 73 to 78: the model is restored from the \<^verbatim>\<open>.nemo\<close> file or loaded from the
  \<^verbatim>\<open>.ckpt\<close> checkpoint. The chain has no \<^verbatim>\<open>else\<close>: with any other path the name
  \<^verbatim>\<open>model\<close> stays unbound.
\<close>

definition load_model :: "'m lib \<Rightarrow> args \<Rightarrow> world \<Rightarrow> error + ('m option \<times> world)" where
  "load_model L a w =
     (if endswith (model a) ''.nemo'' then
        (let w1 = logging_info ''Attempting to initialize from .nemo file'' w
         in bindE (lib_call (restore_from L (model a))) (\<lambda>m. Inr (Some m, w1)))
      else if endswith (model a) ''.ckpt'' then
        (let w1 = logging_info ''Attempting to initialize from .ckpt file'' w
         in bindE (lib_call (load_from_checkpoint L (model a))) (\<lambda>m. Inr (Some m, w1)))
      else Inr (None, w))"

text \<open>Lines 82 to 103: the dataset object.\<close>

definition make_dataset :: "nat \<Rightarrow> nat \<Rightarrow> args \<Rightarrow> 'm \<Rightarrow> 'm dataset" where
  "make_dataset r world_size a m =
     (if twoside a then
        TarredTranslationDataset (text2translate a) (metadata_path a) m m
          100 ''scatter'' world_size r (reverse_lang_direction a)
      else
        TarredOneSideTranslationDataset (text2translate a) (metadata_path a) m
          100 ''scatter'' world_size r)"

text \<open>Lines 105 to 108: the names of the rank's directory and of its two files.\<close>

definition rank_result_dir :: "args \<Rightarrow> nat \<Rightarrow> string" where
  "rank_result_dir a r = os_path_join (result_dir a) (''rank'' @ str_nat r)"

definition originals_path :: "args \<Rightarrow> nat \<Rightarrow> string" where
  "originals_path a r = os_path_join (rank_result_dir a r) ''originals.txt''"

definition translations_path :: "args \<Rightarrow> nat \<Rightarrow> string" where
  "translations_path a r = os_path_join (rank_result_dir a r) ''translations.txt''"

text \<open>Lines 111 to 122: the detokenizers. Each name is bound by an \<^verbatim>\<open>if\<close> chain.\<close>

definition select_target_detokenizer :: "args \<Rightarrow> detokenizer option" where
  "select_target_detokenizer a =
     (if target_lang a \<noteq> ''zh'' then Some (MosesDetokenizer (target_lang a))
      else if target_lang a = ''zh'' then Some PanguJiebaDetokenizer
      else None)"

text \<open>
  \<^verbatim>\<open>args.target_lang or args.source_lang == 'ja'\<close>: \<^verbatim>\<open>==\<close> binds tighter than
  \<^verbatim>\<open>or\<close>, and \<^verbatim>\<open>x or y\<close> is \<^verbatim>\<open>x\<close> when \<^verbatim>\<open>x\<close> is truthy (a non-empty string),
  \<^verbatim>\<open>y\<close> otherwise.
\<close>

definition sp_condition :: "args \<Rightarrow> bool" where
  "sp_condition a = (if target_lang a \<noteq> [] then True else source_lang a = ''ja'')"

definition select_sp_detokenizer :: "args \<Rightarrow> detokenizer option" where
  "select_sp_detokenizer a = (if sp_condition a then Some SentencePieceDetokenizer else None)"

definition select_source_detokenizer :: "args \<Rightarrow> detokenizer option" where
  "select_source_detokenizer a =
     (if source_lang a \<noteq> ''zh'' then Some (MosesDetokenizer (source_lang a))
      else if source_lang a = ''zh'' then Some PanguJiebaDetokenizer
      else None)"

text \<open>The local names the batch loop reads.\<close>

record 'm frame =
  rank :: nat
  cli :: args
  mt_model :: 'm
  ddp_model :: 'm
  target_detokenizer :: "detokenizer option"
  sp_detokenizer :: "detokenizer option"
  source_detokenizer :: "detokenizer option"
  originals_file_name :: string
  translations_file_name :: string

text \<open>The names as \<^verbatim>\<open>translate\<close> has bound them when it reaches the loop.\<close>

definition frame_of :: "nat \<Rightarrow> args \<Rightarrow> 'm \<Rightarrow> 'm \<Rightarrow> 'm frame" where
  "frame_of r a m ddp =
     \<lparr>rank = r, cli = a, mt_model = m, ddp_model = ddp,
      target_detokenizer = select_target_detokenizer a,
      sp_detokenizer = select_sp_detokenizer a,
      source_detokenizer = select_source_detokenizer a,
      originals_file_name = originals_path a r,
      translations_file_name = translations_path a r\<rparr>"

record loop_state =
  world_of :: world
  num_translated_sentences :: nat

text \<open>Lines 126 to 129: every tensor of the batch, in place.\<close>

definition prepare_tensor :: "nat \<Rightarrow> tensor \<Rightarrow> tensor" where
  "prepare_tensor r t = to_device (if ndim t = 3 then squeeze0 t else t) r"

definition prepare_batch :: "nat \<Rightarrow> tensor list \<Rightarrow> tensor list" where
  "prepare_batch r batch = map (prepare_tensor r) batch"

text \<open>
  Lines 130 to 133: tuple unpacking of the batch, a \<^verbatim>\<open>ValueError\<close> when the number of
  names and the number of tensors differ.
\<close>

fun unpack5 :: "tensor list \<Rightarrow> error + (tensor \<times> tensor)" where
  "unpack5 [src_ids, src_mask, _, _, _] = Inr (src_ids, src_mask)"
| "unpack5 _ = Inl ValueError"

fun unpack2 :: "tensor list \<Rightarrow> error + (tensor \<times> tensor)" where
  "unpack2 [src_ids, src_mask] = Inr (src_ids, src_mask)"
| "unpack2 _ = Inl ValueError"

definition unpack_batch :: "args \<Rightarrow> tensor list \<Rightarrow> error + (tensor \<times> tensor)" where
  "unpack_batch a batch = (if twoside a then unpack5 batch else unpack2 batch)"

text \<open>Lines 135 to 138: the text of the progress message.\<close>

definition progress_message :: "nat \<Rightarrow> nat \<Rightarrow> nat \<Rightarrow> string" where
  "progress_message batch_idx n r =
     str_nat batch_idx @ '' batches ('' @ str_nat n @
     '' sentences) were translated by process with rank '' @ str_nat r"

text \<open>Lines 134 to 138: the message is logged for every hundredth batch, the first included.\<close>

definition log_progress :: "'m frame \<Rightarrow> nat \<Rightarrow> loop_state \<Rightarrow> world" where
  "log_progress c batch_idx st =
     (if batch_idx mod 100 = 0
      then logging_info
             (progress_message batch_idx (num_translated_sentences st) (rank c))
             (world_of st)
      else world_of st)"

text \<open>Lines 143 to 146: the line written for one translation.\<close>

definition translation_line :: "'m lib \<Rightarrow> 'm frame \<Rightarrow> tensor \<Rightarrow> error + string" where
  "translation_line L c t =
     bindE (lib_call (decoder_ids_to_text L (mt_model c) t)) (\<lambda>t1.
     bindE (if target_lang (cli c) = ''ja''
            then bindE (use_local ''sp_detokenizer'' (sp_detokenizer c))
                   (\<lambda>sp. detokenize L sp (split t1))
            else Inr t1) (\<lambda>t2.
     bindE (use_local ''target_detokenizer'' (target_detokenizer c))
       (\<lambda>d. detokenize L d (split t2))))"

text \<open>Lines 149 to 152: the line written for one source sentence.\<close>

definition original_line :: "'m lib \<Rightarrow> 'm frame \<Rightarrow> tensor \<Rightarrow> error + string" where
  "original_line L c o_ids =
     bindE (lib_call (encoder_ids_to_text L (mt_model c) o_ids)) (\<lambda>o1.
     bindE (if target_lang (cli c) = ''ja''
            then bindE (use_local ''sp_detokenizer'' (sp_detokenizer c))
                   (\<lambda>sp. detokenize L sp (split o1))
            else Inr o1) (\<lambda>o2.
     bindE (use_local ''source_detokenizer'' (source_detokenizer c))
       (\<lambda>d. detokenize L d (split o2))))"

text \<open>The two inner \<^verbatim>\<open>for\<close> loops: one \<^verbatim>\<open>write(line + '\n')\<close> per row.\<close>

fun write_lines :: "(tensor \<Rightarrow> error + string) \<Rightarrow> string \<Rightarrow> tensor list \<Rightarrow> world \<Rightarrow> error + world" where
  "write_lines f path [] w = Inr w"
| "write_lines f path (t # ts) w =
     bindE (f t) (\<lambda>line. write_lines f path ts (file_write path (line @ [CHR 0x0A]) w))"

text \<open>
  Lines 134 to 153: what the body of the loop does with the two tensors it has unpacked.
\<close>

definition write_batch ::
  "'m lib \<Rightarrow> 'm frame \<Rightarrow> nat \<Rightarrow> tensor \<Rightarrow> tensor \<Rightarrow> loop_state \<Rightarrow> error + loop_state" where
  "write_batch L c batch_idx src_ids src_mask st =
     (let w1 = log_progress c batch_idx st in
      bindE (tensor_len src_ids) (\<lambda>n.
      let num1 = num_translated_sentences st + n in
      bindE (lib_call (forward L (ddp_model c) src_ids src_mask)) (\<lambda>translations.
      bindE (tensor_rows (cpu_numpy translations)) (\<lambda>ts.
      bindE (write_lines (translation_line L c) (translations_file_name c) ts w1) (\<lambda>w2.
      bindE (tensor_rows src_ids) (\<lambda>os.
      bindE (write_lines (original_line L c) (originals_file_name c) os w2) (\<lambda>w3.
      Inr \<lparr>world_of = w3, num_translated_sentences = num1\<rparr>)))))))"

text \<open>
  Lines 126 to 153: the body of the batch loop. Every tensor of the batch is prepared,
  the batch is unpacked, and the two tensors go on.
\<close>

definition process_batch ::
  "'m lib \<Rightarrow> 'm frame \<Rightarrow> nat \<Rightarrow> tensor list \<Rightarrow> loop_state \<Rightarrow> error + loop_state" where
  "process_batch L c batch_idx batch st =
     (let batch1 = prepare_batch (rank c) batch in
      bindE (unpack_batch (cli c) batch1) (\<lambda>(src_ids, src_mask).
      write_batch L c batch_idx src_ids src_mask st))"

text \<open>Line 125: \<^verbatim>\<open>for batch_idx, batch in enumerate(loader)\<close>.\<close>

fun batch_loop ::
  "'m lib \<Rightarrow> 'm frame \<Rightarrow> nat \<Rightarrow> tensor list list \<Rightarrow> loop_state \<Rightarrow> error + loop_state" where
  "batch_loop L c batch_idx [] st = Inr st"
| "batch_loop L c batch_idx (batch # rest) st =
     bindE (process_batch L c batch_idx batch st)
       (\<lambda>st1. batch_loop L c (Suc batch_idx) rest st1)"

text \<open>
  Lines 124 to 153: the \<^verbatim>\<open>with\<close> statement opens the two files for writing, runs the
  loop, and closes them in the reverse order.
\<close>

definition write_results ::
  "'m lib \<Rightarrow> 'm frame \<Rightarrow> tensor list list \<Rightarrow> world \<Rightarrow> error + loop_state" where
  "write_results L c loader w =
     bindE (open_w (originals_file_name c) w) (\<lambda>w1.
     bindE (open_w (translations_file_name c) w1) (\<lambda>w2.
     bindE (batch_loop L c 0 loader \<lparr>world_of = w2, num_translated_sentences = 0\<rparr>) (\<lambda>st.
     Inr (st\<lparr>world_of :=
            file_close (originals_file_name c)
              (file_close (translations_file_name c) (world_of st))\<rparr>))))"

text \<open>
  The number of sentences counted before batch \<open>k\<close> of the loader: the value of
  \<^verbatim>\<open>num_translated_sentences\<close> after the loop has run over the first \<open>k\<close> batches.
\<close>

definition sentences_before ::
  "'m lib \<Rightarrow> 'm frame \<Rightarrow> tensor list list \<Rightarrow> loop_state \<Rightarrow> nat \<Rightarrow> nat" where
  "sentences_before L c loader st0 k =
     (case batch_loop L c 0 (take k loader) st0 of
        Inl e \<Rightarrow> 0
      | Inr st \<Rightarrow> num_translated_sentences st)"

text \<open>
  The whole procedure. The dataset is read when it is constructed: a lazily read shard
  is not modelled. The result is the final world with the final value of
  \<^verbatim>\<open>num_translated_sentences\<close>.
\<close>

definition translate ::
  "'m lib \<Rightarrow> nat \<Rightarrow> nat \<Rightarrow> args \<Rightarrow> world \<Rightarrow> error + loop_state" where
  "translate L r world_size a w0 =
     bindE (setup_group L r world_size a w0) (\<lambda>w1.
     let w2 = w1\<lparr>grad_enabled := False\<rparr> in
     bindE (load_model L a w2) (\<lambda>(binding, w3).
     bindE (use_local ''model'' binding) (\<lambda>m0.
     bindE (lib_call (replace_beam_with_sampling L m0 (topk a))) (\<lambda>m1.
     bindE (lib_call (model_to L m1 r)) (\<lambda>m2.
     bindE (lib_call (DDP L m2 [r])) (\<lambda>ddp0.
     bindE (lib_call (eval_mode L ddp0)) (\<lambda>ddp.
     bindE (lib_call (samples L (make_dataset r world_size a m2))) (\<lambda>ds.
     let loader = DataLoader ds in
     bindE (os_makedirs (rank_result_dir a r) True w3) (\<lambda>w4.
     bindE (write_results L (frame_of r a m2 ddp) loader w4) (\<lambda>st.
     bindE (cleanup L (world_of st)) (\<lambda>w5.
     Inr (st\<lparr>world_of := w5\<rparr>))))))))))))"

subsection \<open>A concrete library and world\<close>

text \<open>
  A small stand-in for the libraries, on which the procedure can be evaluated: the
  model is the path it was loaded from, inference echoes the source ids, a tokenizer
  reads every id as a character code, the generic detokenizer joins the tokens with
  spaces, the Chinese one joins them with nothing between them, and the sub-word one
  joins them with an underscore.
\<close>

fun join :: "string \<Rightarrow> string list \<Rightarrow> string" where
  "join sep [] = []"
| "join sep [x] = x"
| "join sep (x # y # ys) = x @ sep @ join sep (y # ys)"

definition ids_text :: "tensor \<Rightarrow> string" where
  "ids_text t = map (\<lambda>i. char_of (nat i)) (elems t)"

definition example_row :: "string \<Rightarrow> tensor" where
  "example_row s =
     \<lparr>shape = [length s], elems = map (\<lambda>c. int (of_char c)) s, device = CPU\<rparr>"

definition example_sample :: "string \<Rightarrow> string \<Rightarrow> tensor list" where
  "example_sample s1 s2 =
     [\<lparr>shape = [2, 3], elems = map (\<lambda>c. int (of_char c)) (s1 @ s2), device = CPU\<rparr>,
      \<lparr>shape = [2, 3], elems = [1, 1, 1, 1, 1, 1], device = CPU\<rparr>]"

definition example_extra :: "tensor list" where
  "example_extra =
     [\<lparr>shape = [2, 1], elems = [7, 8], device = CPU\<rparr>,
      \<lparr>shape = [2, 1], elems = [7, 8], device = CPU\<rparr>,
      \<lparr>shape = [2, 1], elems = [1, 1], device = CPU\<rparr>]"

definition example_samples :: "string dataset \<Rightarrow> tensor list list" where
  "example_samples ds =
     (case ds of
        TarredOneSideTranslationDataset p q tk n s ws gr \<Rightarrow>
          [example_sample ''a b'' ''c d'', example_sample ''e f'' ''g h'']
      | TarredTranslationDataset p q et dt n s ws gr rv \<Rightarrow>
          [example_sample ''a b'' ''c d'' @ example_extra])"

definition example_lib :: "string lib" where
  "example_lib =
     \<lparr>init_process_group = (\<lambda>backend r n. Inr ()),
      destroy_process_group = (\<lambda>u. Inr ()),
      restore_from = (\<lambda>p. Inr p),
      load_from_checkpoint = (\<lambda>p. Inr p),
      replace_beam_with_sampling = (\<lambda>m k. Inr m),
      model_to = (\<lambda>m r. Inr m),
      DDP = (\<lambda>m ids. Inr m),
      eval_mode = (\<lambda>m. Inr m),
      forward = (\<lambda>m src_ids src_mask. Inr src_ids),
      encoder_ids_to_text = (\<lambda>m t. Inr (ids_text t)),
      decoder_ids_to_text = (\<lambda>m t. Inr (ids_text t)),
      samples = (\<lambda>ds. Inr (example_samples ds)),
      moses_detokenize = (\<lambda>lang toks. Inr (join '' '' toks)),
      pangu_jieba_detokenize = (\<lambda>toks. Inr (join [] toks)),
      sentencepiece_detokenize = (\<lambda>toks. Inr (join ''_'' toks))\<rparr>"

definition example_args :: args where
  "example_args =
     \<lparr>model = ''mt.nemo'', text2translate = ''shards.tar'', result_dir = ''out'',
      twoside = False, metadata_path = ''metadata.json'', topk = 500,
      source_lang = ''en'', target_lang = ''de'', reverse_lang_direction = False\<rparr>"

text \<open>A world in which the rank's directory and its file of originals already exist.\<close>

definition example_world :: world where
  "example_world =
     \<lparr>fs = [''out'' \<mapsto> Dir, ''out/rank0'' \<mapsto> Dir,
             ''out/rank0/originals.txt'' \<mapsto> File [''earlier run'']],
      open_files = [],
      environ = Map.empty,
      process_group = None,
      grad_enabled = True,
      log_lines = []\<rparr>"

section \<open>Properties\<close>

subsection \<open>Sequencing\<close>

lemma bindE_Inr_iff: "bindE m f = Inr y \<longleftrightarrow> (\<exists>x. m = Inr x \<and> f x = Inr y)"
  by (cases m) auto

lemma bindE_Inl_iff: "bindE m f = Inl e \<longleftrightarrow> (m = Inl e \<or> (\<exists>x. m = Inr x \<and> f x = Inl e))"
  by (cases m) auto

lemma lib_call_Inr_iff: "lib_call m = Inr x \<longleftrightarrow> m = Inr x"
  by (cases m) auto

lemma lib_call_Inl_iff: "lib_call m = Inl e \<longleftrightarrow> (\<exists>msg. m = Inl msg \<and> e = LibraryError msg)"
  by (cases m) auto

lemma use_local_Inr_iff: "use_local name b = Inr x \<longleftrightarrow> b = Some x"
  by (cases b) auto

lemma use_local_Inl_iff: "use_local name b = Inl e \<longleftrightarrow> b = None \<and> e = UnboundLocalError name"
  by (cases b) auto

subsection \<open>Names and paths\<close>

lemma endswith_same_length:
  "endswith s x \<Longrightarrow> endswith s y \<Longrightarrow> length x = length y \<Longrightarrow> x = y"
  by (auto simp: endswith_def)

lemma ckpt_not_nemo: "endswith s ''.ckpt'' \<Longrightarrow> \<not> endswith s ''.nemo''"
  using endswith_same_length [of s "''.ckpt''" "''.nemo''"] by auto

lemma files_distinct: "originals_path a r \<noteq> translations_path a r"
  by (simp add: originals_path_def translations_path_def os_path_join_def startswith_def)

lemma originals_not_dir: "originals_path a r \<noteq> rank_result_dir a r"
  by (simp add: originals_path_def os_path_join_def startswith_def)

lemma translations_not_dir: "translations_path a r \<noteq> rank_result_dir a r"
  by (simp add: translations_path_def os_path_join_def startswith_def)

lemma frame_of_fields:
  "rank (frame_of r a m ddp) = r" "cli (frame_of r a m ddp) = a"
  "originals_file_name (frame_of r a m ddp) = originals_path a r"
  "translations_file_name (frame_of r a m ddp) = translations_path a r"
  "sp_detokenizer (frame_of r a m ddp) = select_sp_detokenizer a"
  by (simp_all add: frame_of_def)

lemma frame_of_bound:
  "target_lang (cli (frame_of r a m ddp)) = ''ja'' \<Longrightarrow> sp_detokenizer (frame_of r a m ddp) \<noteq> None"
  "target_detokenizer (frame_of r a m ddp) \<noteq> None"
  "source_detokenizer (frame_of r a m ddp) \<noteq> None"
  by (auto simp: frame_of_def select_sp_detokenizer_def sp_condition_def
      select_target_detokenizer_def select_source_detokenizer_def)

subsection \<open>Files\<close>

lemma file_chunks_write_same: "file_chunks (file_write p s w) p = file_chunks w p @ [s]"
  by (simp add: file_write_def file_chunks_def)

lemma fs_write_other: "q \<noteq> p \<Longrightarrow> fs (file_write p s w) q = fs w q"
  by (simp add: file_write_def)

lemma file_write_fields:
  "log_lines (file_write p s w) = log_lines w"
  "open_files (file_write p s w) = open_files w"
  "environ (file_write p s w) = environ w"
  "process_group (file_write p s w) = process_group w"
  "grad_enabled (file_write p s w) = grad_enabled w"
  by (simp_all add: file_write_def)

lemma open_w_effect:
  "open_w p w = Inr w' \<Longrightarrow>
     fs w' = (fs w)(p \<mapsto> File []) \<and> open_files w' = open_files w @ [p]
     \<and> log_lines w' = log_lines w \<and> environ w' = environ w
     \<and> process_group w' = process_group w \<and> grad_enabled w' = grad_enabled w"
  by (auto simp: open_w_def split: option.splits node.splits)

lemma open_w_Inl: "open_w p w = Inl e \<Longrightarrow> e = IsADirectoryError p"
  by (auto simp: open_w_def split: option.splits node.splits)

lemma opened_empty:
  assumes o1: "open_w p w = Inr w1" and o2: "open_w q w1 = Inr w2" and pq: "p \<noteq> q"
  shows "file_chunks w2 p = []" "file_chunks w2 q = []"
    "fs w2 = (fs w)(p \<mapsto> File [], q \<mapsto> File [])"
    "open_files w2 = open_files w @ [p, q]"
  using open_w_effect [OF o1] open_w_effect [OF o2] pq
  by (simp_all add: file_chunks_def)

lemma file_close_fields:
  "fs (file_close p w) = fs w"
  "file_chunks (file_close p w) q = file_chunks w q"
  "open_files (file_close p w) = removeAll p (open_files w)"
  "log_lines (file_close p w) = log_lines w"
  by (simp_all add: file_close_def file_chunks_def)

lemma os_mkdir_Inr:
  "os_mkdir name w = Inr w' \<Longrightarrow> fs w name = None \<and> w' = w\<lparr>fs := (fs w)(name \<mapsto> Dir)\<rparr>"
  by (auto simp: os_mkdir_def path_lookup_def split: if_splits option.splits node.splits)

lemma os_mkdir_Inl:
  "os_mkdir name w = Inl e \<Longrightarrow>
     e = FileNotFoundError name \<or> e = NotADirectoryError name
     \<or> (e = FileExistsError name \<and> path_lookup w name \<noteq> None)"
  by (auto simp: os_mkdir_def split: if_splits option.splits node.splits)

lemma mkdir_leaf_Inr:
  "mkdir_leaf name exist_ok w = Inr w' \<Longrightarrow>
     (fs w name = None \<and> w' = w\<lparr>fs := (fs w)(name \<mapsto> Dir)\<rparr>)
     \<or> (exist_ok \<and> path_lookup w name = Some Dir \<and> w' = w)"
  by (auto simp: mkdir_leaf_def split: sum.splits if_splits dest: os_mkdir_Inr)

lemma mkdir_leaf_Inl:
  assumes "mkdir_leaf name True w = Inl e"
  shows "e = FileNotFoundError name \<or> e = NotADirectoryError name
     \<or> (e = FileExistsError name \<and> (\<exists>cs. fs w name = Some (File cs)))"
proof -
  from assms have mk: "os_mkdir name w = Inl e" and nd: "path_lookup w name \<noteq> Some Dir"
    by (auto simp: mkdir_leaf_def split: sum.splits if_splits)
  from os_mkdir_Inl [OF mk] show ?thesis
  proof (elim disjE conjE)
    assume e: "e = FileExistsError name" and "path_lookup w name \<noteq> None"
    with nd obtain cs where "path_lookup w name = Some (File cs)"
      by (cases "path_lookup w name") (auto intro: node.exhaust)
    then have "fs w name = Some (File cs)"
      by (auto simp: path_lookup_def split: if_splits)
    with e show ?thesis by blast
  qed auto
qed

lemma os_makedirs_parent_found:
  "parent_lookup w name = Some nd \<Longrightarrow> os_makedirs name exist_ok w = mkdir_leaf name exist_ok w"
  by (subst os_makedirs.simps) (auto simp: parent_lookup_def split: if_splits)

lemma os_makedirs_frame:
  "os_makedirs name exist_ok w = Inr w' \<Longrightarrow>
     (\<forall>q. fs w' q = fs w q \<or> (fs w q = None \<and> fs w' q = Some Dir))
     \<and> open_files w' = open_files w \<and> log_lines w' = log_lines w
     \<and> environ w' = environ w \<and> process_group w' = process_group w
     \<and> grad_enabled w' = grad_enabled w"
proof (induction name exist_ok w arbitrary: w' rule: os_makedirs.induct)
  case (1 name exist_ok w)
  let ?P = "\<lambda>w w'. (\<forall>q. fs w' q = fs w q \<or> (fs w q = None \<and> fs w' q = Some Dir))
     \<and> open_files w' = open_files w \<and> log_lines w' = log_lines w
     \<and> environ w' = environ w \<and> process_group w' = process_group w
     \<and> grad_enabled w' = grad_enabled w"
  have leaf: "?P v v'" if "mkdir_leaf name exist_ok v = Inr v'" for v v'
    using mkdir_leaf_Inr [OF that] by (auto split: if_splits)
  show ?case
  proof (cases "fst (makedirs_split name) \<noteq> [] \<and> snd (makedirs_split name) \<noteq> []
         \<and> path_lookup w (fst (makedirs_split name)) = None")
    case False
    with "1.prems" have "mkdir_leaf name exist_ok w = Inr w'"
      by (subst (asm) os_makedirs.simps) simp
    from leaf [OF this] show ?thesis .
  next
    case True
    with "1.prems" obtain w1 where
      up: "(case os_makedirs (fst (makedirs_split name)) exist_ok w of
              Inl e \<Rightarrow> (if is_FileExistsError e then Inr w else Inl e)
            | Inr w1 \<Rightarrow> Inr w1) = Inr w1"
      and down: "(if snd (makedirs_split name) = ''.'' then Inr w1
                  else mkdir_leaf name exist_ok w1) = Inr w'"
      by (subst (asm) os_makedirs.simps) (auto simp: bindE_Inr_iff)
    have first: "?P w w1"
    proof (cases "os_makedirs (fst (makedirs_split name)) exist_ok w")
      case (Inl e)
      with up have "w1 = w" by (auto split: if_splits)
      then show ?thesis by simp
    next
      case (Inr v)
      with up have "w1 = v" by simp
      with "1.IH" [OF True] Inr show ?thesis by blast
    qed
    have second: "?P w1 w'"
    proof (cases "snd (makedirs_split name) = ''.''")
      case True
      with down show ?thesis by simp
    next
      case False
      with down leaf show ?thesis by simp
    qed
    from first second show ?thesis
      by (metis (no_types, lifting))
  qed
qed

lemma os_makedirs_Inr:
  assumes "os_makedirs name True w = Inr w'" and "snd (makedirs_split name) \<noteq> ''.''"
  shows "path_lookup w' name = Some Dir"
proof -
  from assms obtain v where "mkdir_leaf name True v = Inr w'"
    by (subst (asm) os_makedirs.simps) (auto simp: bindE_Inr_iff split: if_splits)
  from mkdir_leaf_Inr [OF this] show ?thesis
    by (auto simp: path_lookup_def)
qed

lemma os_makedirs_Inl:
  "os_makedirs name True w = Inl e \<Longrightarrow>
     (e = FileExistsError name \<and> (\<exists>cs. fs w name = Some (File cs)))
     \<or> (\<exists>p. e = NotADirectoryError p) \<or> (\<exists>p. e = FileNotFoundError p)"
proof (induction name True w arbitrary: e rule: os_makedirs.induct)
  case (1 name w)
  show ?case
  proof (cases "fst (makedirs_split name) \<noteq> [] \<and> snd (makedirs_split name) \<noteq> []
         \<and> path_lookup w (fst (makedirs_split name)) = None")
    case False
    with "1.prems" have "mkdir_leaf name True w = Inl e"
      by (subst (asm) os_makedirs.simps) simp
    from mkdir_leaf_Inl [OF this] show ?thesis by blast
  next
    case True
    let ?up = "os_makedirs (fst (makedirs_split name)) True w"
    from "1.prems" True consider
        (above) "?up = Inl e" "\<not> is_FileExistsError e"
      | (caught) e' where "?up = Inl e'" "mkdir_leaf name True w = Inl e"
      | (below) w1 where "?up = Inr w1" "mkdir_leaf name True w1 = Inl e"
      by (subst (asm) os_makedirs.simps)
         (auto simp: bindE_Inl_iff split: sum.splits if_splits)
    then show ?thesis
    proof cases
      case above
      from "1.hyps" [OF True above(1)] above(2) show ?thesis by auto
    next
      case caught
      from mkdir_leaf_Inl [OF caught(2)] show ?thesis by blast
    next
      case below
      from os_makedirs_frame [OF below(1)] have
        "fs w1 name = fs w name \<or> (fs w name = None \<and> fs w1 name = Some Dir)" by blast
      with mkdir_leaf_Inl [OF below(2)] show ?thesis by (elim disjE conjE exE) simp_all
    qed
  qed
qed

lemma digit_char_plain: "k < 10 \<Longrightarrow> digit_char k \<noteq> CHR ''/'' \<and> digit_char k \<noteq> CHR ''.''"
proof -
  assume "k < 10"
  then have "k \<in> {0, 1, 2, 3, 4, 5, 6, 7, 8, 9}" by auto
  then show ?thesis by (auto simp: digit_char_def)
qed

lemma str_nat_last: "str_nat n \<noteq> [] \<and> last (str_nat n) = digit_char (n mod 10)"
  by (subst (1 2) str_nat.simps) simp

lemma rank_result_dir_last:
  "rank_result_dir a r \<noteq> [] \<and> last (rank_result_dir a r) = digit_char (r mod 10)"
  using str_nat_last [of r]
  by (simp add: rank_result_dir_def os_path_join_def startswith_def)

lemma makedirs_split_tail:
  assumes "p \<noteq> []" and "last p \<noteq> CHR ''/''"
  shows "snd (makedirs_split p) \<noteq> [] \<and> last (snd (makedirs_split p)) = last p"
proof -
  from assms(1) obtain xs c where p: "p = xs @ [c]" by (cases p rule: rev_cases) auto
  with assms(2) have c: "c \<noteq> CHR ''/''" by simp
  have t: "snd (path_split p) = rev (takeWhile (\<lambda>c. c \<noteq> CHR ''/'') (rev xs)) @ [c]"
    by (simp add: path_split_def Let_def p c)
  then have "makedirs_split p = path_split p"
    by (cases "path_split p") (auto simp: makedirs_split_def)
  with t show ?thesis by (simp add: p)
qed

lemma rank_result_dir_tail:
  "snd (makedirs_split (rank_result_dir a r)) \<noteq> ''.''"
  "\<not> all_slashes (rank_result_dir a r)"
proof -
  let ?d = "rank_result_dir a r"
  have l: "?d \<noteq> []" "last ?d \<noteq> CHR ''/''" "last ?d \<noteq> CHR ''.''"
    using rank_result_dir_last [of a r] digit_char_plain [of "r mod 10"] by simp_all
  from makedirs_split_tail [OF l(1,2)] l(3)
  show "snd (makedirs_split ?d) \<noteq> ''.''" by auto
  show "\<not> all_slashes ?d"
  proof
    assume "all_slashes ?d"
    then have "?d = replicate (length ?d) CHR ''/''" by (simp add: all_slashes_def)
    then have "last ?d = last (replicate (length ?d) CHR ''/'')" by simp
    with l(1,2) show False by simp
  qed
qed

lemma makedirs_rank_dir:
  assumes "os_makedirs (rank_result_dir a r) True w = Inr w'"
  shows "fs w' (rank_result_dir a r) = Some Dir"
  using os_makedirs_Inr [OF assms rank_result_dir_tail(1)] rank_result_dir_tail(2) [of a r]
  by (simp add: path_lookup_def)

subsection \<open>Writing lines\<close>

lemma write_lines_chunks:
  "write_lines f p ts w = Inr w' \<Longrightarrow>
     \<exists>ls. length ls = length ts \<and> map Inr ls = map f ts \<and>
          file_chunks w' p = file_chunks w p @ map (\<lambda>l. l @ [CHR 0x0A]) ls"
proof (induction ts arbitrary: w)
  case Nil
  then show ?case by simp
next
  case (Cons t ts)
  from Cons.prems obtain line where l: "f t = Inr line"
    and rest: "write_lines f p ts (file_write p (line @ [CHR 0x0A]) w) = Inr w'"
    by (auto simp: bindE_Inr_iff)
  from Cons.IH [OF rest] obtain ls where ls: "length ls = length ts" "map Inr ls = map f ts"
    "file_chunks w' p =
       file_chunks (file_write p (line @ [CHR 0x0A]) w) p @ map (\<lambda>l. l @ [CHR 0x0A]) ls"
    by blast
  show ?case
    by (rule exI [of _ "line # ls"]) (simp add: ls l file_chunks_write_same)
qed

lemma write_lines_other:
  "write_lines f p ts w = Inr w' \<Longrightarrow> q \<noteq> p \<Longrightarrow> fs w' q = fs w q"
proof (induction ts arbitrary: w)
  case Nil
  then show ?case by simp
next
  case (Cons t ts)
  from Cons.prems obtain line where
    rest: "write_lines f p ts (file_write p (line @ [CHR 0x0A]) w) = Inr w'"
    by (auto simp: bindE_Inr_iff)
  from Cons.IH [OF rest Cons.prems(2)] show ?case
    by (simp add: fs_write_other Cons.prems(2))
qed

lemma write_lines_fields:
  "write_lines f p ts w = Inr w' \<Longrightarrow>
     log_lines w' = log_lines w \<and> open_files w' = open_files w \<and> environ w' = environ w
     \<and> process_group w' = process_group w \<and> grad_enabled w' = grad_enabled w"
proof (induction ts arbitrary: w)
  case Nil
  then show ?case by simp
next
  case (Cons t ts)
  from Cons.prems obtain line where
    rest: "write_lines f p ts (file_write p (line @ [CHR 0x0A]) w) = Inr w'"
    by (auto simp: bindE_Inr_iff)
  from Cons.IH [OF rest] show ?case
    by (simp add: file_write_fields)
qed

lemma write_lines_is_file:
  "write_lines f p ts w = Inr w' \<Longrightarrow> \<exists>cs. fs w q = Some (File cs) \<Longrightarrow>
     \<exists>cs. fs w' q = Some (File cs)"
proof (induction ts arbitrary: w)
  case Nil
  then show ?case by simp
next
  case (Cons t ts)
  from Cons.prems obtain line where
    rest: "write_lines f p ts (file_write p (line @ [CHR 0x0A]) w) = Inr w'"
    by (auto simp: bindE_Inr_iff)
  from Cons.prems(2) have "\<exists>cs. fs (file_write p (line @ [CHR 0x0A]) w) q = Some (File cs)"
    by (simp add: file_write_def)
  from Cons.IH [OF rest this] show ?case .
qed

lemma write_lines_Inl:
  "write_lines f p ts w = Inl e \<Longrightarrow> \<exists>t \<in> set ts. f t = Inl e"
proof (induction ts arbitrary: w)
  case Nil
  then show ?case by simp
next
  case (Cons t ts)
  then show ?case by (auto simp: bindE_Inl_iff)
qed

subsection \<open>One batch\<close>

lemma tensor_rows_len: "tensor_rows t = Inr rows \<Longrightarrow> tensor_len t = Inr (length rows)"
  by (auto simp: tensor_rows_def tensor_len_def split: list.splits)

lemma tensor_len_cpu_numpy: "tensor_len (cpu_numpy t) = tensor_len t"
  by (simp add: tensor_len_def cpu_numpy_def)

lemma squeeze0_only_size_one:
  "squeeze0 \<lparr>shape = [2, 3, 4], elems = es, device = d\<rparr> =
     \<lparr>shape = [2, 3, 4], elems = es, device = d\<rparr>"
  by (simp add: squeeze0_def)



lemma log_progress_fields:
  "fs (log_progress c i st) = fs (world_of st)"
  "open_files (log_progress c i st) = open_files (world_of st)"
  "environ (log_progress c i st) = environ (world_of st)"
  "process_group (log_progress c i st) = process_group (world_of st)"
  "grad_enabled (log_progress c i st) = grad_enabled (world_of st)"
  "file_chunks (log_progress c i st) p = file_chunks (world_of st) p"
  by (simp_all add: log_progress_def logging_info_def file_chunks_def)

lemma log_progress_log:
  "log_lines (log_progress c i st) =
     log_lines (world_of st) @
       (if i mod 100 = 0
        then [progress_message i (num_translated_sentences st) (rank c)] else [])"
  by (simp add: log_progress_def logging_info_def)

lemma process_batch_Inr_iff:
  "process_batch L c batch_idx batch st = Inr st' \<longleftrightarrow>
     (\<exists>src_ids src_mask n out ts w2 os w3.
        unpack_batch (cli c) (prepare_batch (rank c) batch) = Inr (src_ids, src_mask)
        \<and> tensor_len src_ids = Inr n
        \<and> forward L (ddp_model c) src_ids src_mask = Inr out
        \<and> tensor_rows (cpu_numpy out) = Inr ts
        \<and> write_lines (translation_line L c) (translations_file_name c) ts
              (log_progress c batch_idx st) = Inr w2
        \<and> tensor_rows src_ids = Inr os
        \<and> write_lines (original_line L c) (originals_file_name c) os w2 = Inr w3
        \<and> st' = \<lparr>world_of = w3,
                  num_translated_sentences = num_translated_sentences st + n\<rparr>)"
  unfolding process_batch_def write_batch_def Let_def
  by (auto simp: bindE_Inr_iff lib_call_Inr_iff split: prod.splits)

lemma process_batch_effect:
  assumes run: "process_batch L c i b st = Inr st'"
    and distinct: "originals_file_name c \<noteq> translations_file_name c"
  shows "\<exists>src_ids src_mask n out m.
      unpack_batch (cli c) (prepare_batch (rank c) b) = Inr (src_ids, src_mask)
      \<and> tensor_len src_ids = Inr n
      \<and> forward L (ddp_model c) src_ids src_mask = Inr out
      \<and> tensor_len out = Inr m
      \<and> num_translated_sentences st' = num_translated_sentences st + n
      \<and> (\<exists>ls. length ls = n \<and>
            file_chunks (world_of st') (originals_file_name c) =
              file_chunks (world_of st) (originals_file_name c) @ map (\<lambda>l. l @ [CHR 0x0A]) ls)
      \<and> (\<exists>ls. length ls = m \<and>
            file_chunks (world_of st') (translations_file_name c) =
              file_chunks (world_of st) (translations_file_name c) @ map (\<lambda>l. l @ [CHR 0x0A]) ls)"
proof -
  from run obtain src_ids src_mask n out ts w2 os w3 where
    u: "unpack_batch (cli c) (prepare_batch (rank c) b) = Inr (src_ids, src_mask)"
    and n: "tensor_len src_ids = Inr n"
    and f: "forward L (ddp_model c) src_ids src_mask = Inr out"
    and ts: "tensor_rows (cpu_numpy out) = Inr ts"
    and wt: "write_lines (translation_line L c) (translations_file_name c) ts
               (log_progress c i st) = Inr w2"
    and os: "tensor_rows src_ids = Inr os"
    and wo: "write_lines (original_line L c) (originals_file_name c) os w2 = Inr w3"
    and st': "st' = \<lparr>world_of = w3,
                     num_translated_sentences = num_translated_sentences st + n\<rparr>"
    unfolding process_batch_Inr_iff by blast
  from tensor_rows_len [OF ts] have m: "tensor_len out = Inr (length ts)"
    by (simp add: tensor_len_cpu_numpy)
  from tensor_rows_len [OF os] n have len_os: "length os = n" by simp
  from write_lines_chunks [OF wt] obtain lt where lt: "length lt = length ts"
    "file_chunks w2 (translations_file_name c) =
       file_chunks (world_of st) (translations_file_name c) @ map (\<lambda>l. l @ [CHR 0x0A]) lt"
    by (auto simp: log_progress_fields)
  from write_lines_chunks [OF wo] obtain lo where lo: "length lo = length os"
    "file_chunks w3 (originals_file_name c) =
       file_chunks w2 (originals_file_name c) @ map (\<lambda>l. l @ [CHR 0x0A]) lo"
    by auto
  have o2: "file_chunks w2 (originals_file_name c) =
              file_chunks (world_of st) (originals_file_name c)"
    using write_lines_other [OF wt distinct]
    by (simp add: file_chunks_def log_progress_fields)
  have t3: "file_chunks w3 (translations_file_name c) = file_chunks w2 (translations_file_name c)"
    using write_lines_other [OF wo distinct [symmetric]]
    by (simp add: file_chunks_def)
  show ?thesis
    apply (rule exI [of _ src_ids], rule exI [of _ src_mask], rule exI [of _ n],
           rule exI [of _ out], rule exI [of _ "length ts"])
    apply (intro conjI)
          apply (rule u)
         apply (rule n)
        apply (rule f)
       apply (rule m)
      apply (simp add: st')
     apply (rule exI [of _ lo], simp add: st' lo o2 len_os)
    apply (rule exI [of _ lt], simp add: st' lt t3)
    done
qed

lemma process_batch_frame:
  assumes run: "process_batch L c i b st = Inr st'"
  shows "(\<forall>q. q \<noteq> originals_file_name c \<longrightarrow> q \<noteq> translations_file_name c \<longrightarrow>
            fs (world_of st') q = fs (world_of st) q)
      \<and> open_files (world_of st') = open_files (world_of st)
      \<and> environ (world_of st') = environ (world_of st)
      \<and> process_group (world_of st') = process_group (world_of st)
      \<and> grad_enabled (world_of st') = grad_enabled (world_of st)
      \<and> log_lines (world_of st') =
          log_lines (world_of st) @
            (if i mod 100 = 0
             then [progress_message i (num_translated_sentences st) (rank c)] else [])"
proof -
  from run obtain ts w2 os w3 n where
    wt: "write_lines (translation_line L c) (translations_file_name c) ts
               (log_progress c i st) = Inr w2"
    and wo: "write_lines (original_line L c) (originals_file_name c) os w2 = Inr w3"
    and st': "st' = \<lparr>world_of = w3,
                     num_translated_sentences = num_translated_sentences st + n\<rparr>"
    unfolding process_batch_Inr_iff by blast
  show ?thesis
    using write_lines_fields [OF wt] write_lines_fields [OF wo]
      write_lines_other [OF wt] write_lines_other [OF wo]
    by (simp add: st' log_progress_fields log_progress_log)
qed

lemma process_batch_is_file:
  assumes "process_batch L c i b st = Inr st'" and "\<exists>cs. fs (world_of st) q = Some (File cs)"
  shows "\<exists>cs. fs (world_of st') q = Some (File cs)"
proof -
  from assms(1) obtain ts w2 os w3 n where
    wt: "write_lines (translation_line L c) (translations_file_name c) ts
               (log_progress c i st) = Inr w2"
    and wo: "write_lines (original_line L c) (originals_file_name c) os w2 = Inr w3"
    and st': "st' = \<lparr>world_of = w3,
                     num_translated_sentences = num_translated_sentences st + n\<rparr>"
    unfolding process_batch_Inr_iff by blast
  from assms(2) have "\<exists>cs. fs (log_progress c i st) q = Some (File cs)"
    by (simp add: log_progress_fields)
  from write_lines_is_file [OF wo write_lines_is_file [OF wt this]] show ?thesis
    by (simp add: st')
qed


subsection \<open>The loop\<close>

lemma batch_loop_append:
  "batch_loop L c i (xs @ ys) st =
     bindE (batch_loop L c i xs st) (batch_loop L c (i + length xs) ys)"
proof (induction xs arbitrary: i st)
  case Nil
  then show ?case by simp
next
  case (Cons x xs)
  show ?case
    by (cases "process_batch L c i x st") (simp_all add: Cons.IH)
qed

lemma batch_loop_counts:
  assumes one: "\<forall>m s k out. forward L m s k = Inr out \<longrightarrow> tensor_len out = tensor_len s"
    and distinct: "originals_file_name c \<noteq> translations_file_name c"
  shows "batch_loop L c i bs st = Inr st' \<Longrightarrow>
     \<exists>k. num_translated_sentences st' = num_translated_sentences st + k
        \<and> length (file_chunks (world_of st') (originals_file_name c)) =
            length (file_chunks (world_of st) (originals_file_name c)) + k
        \<and> length (file_chunks (world_of st') (translations_file_name c)) =
            length (file_chunks (world_of st) (translations_file_name c)) + k"
proof (induction bs arbitrary: i st)
  case Nil
  then show ?case by simp
next
  case (Cons b bs)
  from Cons.prems obtain s1 where b: "process_batch L c i b st = Inr s1"
    and rest: "batch_loop L c (Suc i) bs s1 = Inr st'"
    by (auto simp: bindE_Inr_iff)
  from process_batch_effect [OF b distinct] obtain src_ids src_mask n out m where
    n: "tensor_len src_ids = Inr n"
    and f: "forward L (ddp_model c) src_ids src_mask = Inr out"
    and m: "tensor_len out = Inr m"
    and num: "num_translated_sentences s1 = num_translated_sentences st + n"
    and lo: "\<exists>ls. length ls = n \<and>
            file_chunks (world_of s1) (originals_file_name c) =
              file_chunks (world_of st) (originals_file_name c) @ map (\<lambda>l. l @ [CHR 0x0A]) ls"
    and lt: "\<exists>ls. length ls = m \<and>
            file_chunks (world_of s1) (translations_file_name c) =
              file_chunks (world_of st) (translations_file_name c) @ map (\<lambda>l. l @ [CHR 0x0A]) ls"
    by blast
  from one f m n have mn: "m = n" by auto
  from lo have lo': "length (file_chunks (world_of s1) (originals_file_name c)) =
      length (file_chunks (world_of st) (originals_file_name c)) + n" by auto
  from lt mn have lt': "length (file_chunks (world_of s1) (translations_file_name c)) =
      length (file_chunks (world_of st) (translations_file_name c)) + n" by auto
  from Cons.IH [OF rest] obtain k where
    k: "num_translated_sentences st' = num_translated_sentences s1 + k"
       "length (file_chunks (world_of st') (originals_file_name c)) =
            length (file_chunks (world_of s1) (originals_file_name c)) + k"
       "length (file_chunks (world_of st') (translations_file_name c)) =
            length (file_chunks (world_of s1) (translations_file_name c)) + k"
    by blast
  show ?case
    by (rule exI [of _ "n + k"]) (simp add: k num lo' lt')
qed

lemma batch_loop_appends:
  "batch_loop L c i bs st = Inr st' \<Longrightarrow>
     originals_file_name c \<noteq> translations_file_name c \<Longrightarrow>
     \<exists>ls. file_chunks (world_of st') p =
            file_chunks (world_of st) p @ map (\<lambda>l. l @ [CHR 0x0A]) ls"
proof (induction bs arbitrary: i st)
  case Nil
  then show ?case by simp
next
  case (Cons b bs)
  from Cons.prems obtain s1 where b: "process_batch L c i b st = Inr s1"
    and rest: "batch_loop L c (Suc i) bs s1 = Inr st'"
    by (auto simp: bindE_Inr_iff)
  have step: "\<exists>ls. file_chunks (world_of s1) p =
            file_chunks (world_of st) p @ map (\<lambda>l. l @ [CHR 0x0A]) ls"
  proof (cases "p = originals_file_name c \<or> p = translations_file_name c")
    case True
    with process_batch_effect [OF b Cons.prems(2)] show ?thesis by blast
  next
    case False
    with process_batch_frame [OF b] have "fs (world_of s1) p = fs (world_of st) p" by blast
    then have "file_chunks (world_of s1) p = file_chunks (world_of st) p @ map (\<lambda>l. l @ [CHR 0x0A]) []"
      by (simp add: file_chunks_def)
    then show ?thesis by blast
  qed
  then obtain l1 where l1: "file_chunks (world_of s1) p =
            file_chunks (world_of st) p @ map (\<lambda>l. l @ [CHR 0x0A]) l1" by blast
  from Cons.IH [OF rest Cons.prems(2)] obtain l2 where l2: "file_chunks (world_of st') p =
            file_chunks (world_of s1) p @ map (\<lambda>l. l @ [CHR 0x0A]) l2" by blast
  show ?case
    by (rule exI [of _ "l1 @ l2"]) (simp add: l1 l2)
qed

lemma batch_loop_frame:
  "batch_loop L c i bs st = Inr st' \<Longrightarrow>
     (\<forall>q. q \<noteq> originals_file_name c \<longrightarrow> q \<noteq> translations_file_name c \<longrightarrow>
            fs (world_of st') q = fs (world_of st) q)
      \<and> open_files (world_of st') = open_files (world_of st)
      \<and> environ (world_of st') = environ (world_of st)
      \<and> process_group (world_of st') = process_group (world_of st)
      \<and> grad_enabled (world_of st') = grad_enabled (world_of st)"
proof (induction bs arbitrary: i st)
  case Nil
  then show ?case by simp
next
  case (Cons b bs)
  from Cons.prems obtain s1 where b: "process_batch L c i b st = Inr s1"
    and rest: "batch_loop L c (Suc i) bs s1 = Inr st'"
    by (auto simp: bindE_Inr_iff)
  from process_batch_frame [OF b] Cons.IH [OF rest] show ?case by simp
qed

lemma batch_loop_is_file:
  "batch_loop L c i bs st = Inr st' \<Longrightarrow> \<exists>cs. fs (world_of st) q = Some (File cs) \<Longrightarrow>
     \<exists>cs. fs (world_of st') q = Some (File cs)"
proof (induction bs arbitrary: i st)
  case Nil
  then show ?case by simp
next
  case (Cons b bs)
  from Cons.prems obtain s1 where b: "process_batch L c i b st = Inr s1"
    and rest: "batch_loop L c (Suc i) bs s1 = Inr st'"
    by (auto simp: bindE_Inr_iff)
  from Cons.IH [OF rest process_batch_is_file [OF b Cons.prems(2)]] show ?case .
qed

lemma sentences_before_snoc:
  "k \<le> length xs \<Longrightarrow>
     sentences_before L c (xs @ [x]) st0 k = sentences_before L c xs st0 k"
  by (simp add: sentences_before_def)

subsection \<open>The whole run\<close>

lemma setup_group_fs: "setup_group L r n a w = Inr w' \<Longrightarrow> fs w' = fs w"
  by (auto simp: setup_group_def Let_def bindE_Inr_iff)

lemma load_model_fs: "load_model L a w = Inr (b, w') \<Longrightarrow> fs w' = fs w"
  by (auto simp: load_model_def Let_def bindE_Inr_iff logging_info_def split: if_splits)

lemma cleanup_effect:
  "cleanup L w = Inr w' \<Longrightarrow>
     fs w' = fs w \<and> open_files w' = open_files w \<and> log_lines w' = log_lines w
     \<and> process_group w' = None"
  by (auto simp: cleanup_def bindE_Inr_iff)

lemma write_results_Inr_iff:
  "write_results L c loader w = Inr st \<longleftrightarrow>
     (\<exists>w1 w2 st1.
        open_w (originals_file_name c) w = Inr w1
        \<and> open_w (translations_file_name c) w1 = Inr w2
        \<and> batch_loop L c 0 loader \<lparr>world_of = w2, num_translated_sentences = 0\<rparr> = Inr st1
        \<and> st = st1\<lparr>world_of :=
                  file_close (originals_file_name c)
                    (file_close (translations_file_name c) (world_of st1))\<rparr>)"
  unfolding write_results_def
  by (auto simp: bindE_Inr_iff)

lemma translate_Inr_iff:
  "translate L r n a w0 = Inr st \<longleftrightarrow>
     (\<exists>w1 m0 w3 m1 m2 ddp0 ddp ds w4 st1 w5.
        setup_group L r n a w0 = Inr w1
        \<and> load_model L a (w1\<lparr>grad_enabled := False\<rparr>) = Inr (Some m0, w3)
        \<and> replace_beam_with_sampling L m0 (topk a) = Inr m1
        \<and> model_to L m1 r = Inr m2
        \<and> DDP L m2 [r] = Inr ddp0
        \<and> eval_mode L ddp0 = Inr ddp
        \<and> samples L (make_dataset r n a m2) = Inr ds
        \<and> os_makedirs (rank_result_dir a r) True w3 = Inr w4
        \<and> write_results L (frame_of r a m2 ddp) (DataLoader ds) w4 = Inr st1
        \<and> cleanup L (world_of st1) = Inr w5
        \<and> st = st1\<lparr>world_of := w5\<rparr>)"
  unfolding translate_def Let_def
  by (auto simp: bindE_Inr_iff lib_call_Inr_iff use_local_Inr_iff split: prod.splits)

subsection \<open>The exceptions a run can end in\<close>

lemma detokenize_Inl: "detokenize L d toks = Inl e \<Longrightarrow> \<exists>msg. e = LibraryError msg"
  by (cases d) (auto simp: lib_call_Inl_iff)

lemma translation_line_Inl:
  assumes "translation_line L c t = Inl e"
    and "target_lang (cli c) = ''ja'' \<Longrightarrow> sp_detokenizer c \<noteq> None"
    and "target_detokenizer c \<noteq> None"
  shows "\<exists>msg. e = LibraryError msg"
  using assms unfolding translation_line_def
  by (auto simp: bindE_Inl_iff lib_call_Inl_iff use_local_Inl_iff split: if_splits
      dest: detokenize_Inl)

lemma original_line_Inl:
  assumes "original_line L c t = Inl e"
    and "target_lang (cli c) = ''ja'' \<Longrightarrow> sp_detokenizer c \<noteq> None"
    and "source_detokenizer c \<noteq> None"
  shows "\<exists>msg. e = LibraryError msg"
  using assms unfolding original_line_def
  by (auto simp: bindE_Inl_iff lib_call_Inl_iff use_local_Inl_iff split: if_splits
      dest: detokenize_Inl)

lemma unpack_batch_Inl: "unpack_batch a b = Inl e \<Longrightarrow> e = ValueError"
  unfolding unpack_batch_def
  by (cases "twoside a"; cases b rule: unpack5.cases; cases b rule: unpack2.cases) auto

lemma tensor_len_Inl: "tensor_len t = Inl e \<Longrightarrow> e = TypeError"
  by (auto simp: tensor_len_def split: list.splits)

lemma tensor_rows_Inl: "tensor_rows t = Inl e \<Longrightarrow> e = TypeError"
  by (auto simp: tensor_rows_def split: list.splits)

lemma process_batch_Inl:
  assumes err: "process_batch L c i b st = Inl e"
    and sp: "target_lang (cli c) = ''ja'' \<Longrightarrow> sp_detokenizer c \<noteq> None"
    and tg: "target_detokenizer c \<noteq> None"
    and sr: "source_detokenizer c \<noteq> None"
  shows "(\<exists>msg. e = LibraryError msg) \<or> e = ValueError \<or> e = TypeError"
proof -
  from err consider
      (unpack) "unpack_batch (cli c) (prepare_batch (rank c) b) = Inl e"
    | (len) t where "tensor_len t = Inl e"
    | (fwd) x y where "lib_call (forward L (ddp_model c) x y) = Inl e"
    | (rows) t where "tensor_rows t = Inl e"
    | (wt) ts w where "write_lines (translation_line L c) (translations_file_name c) ts w = Inl e"
    | (wo) ts w where "write_lines (original_line L c) (originals_file_name c) ts w = Inl e"
    unfolding process_batch_def write_batch_def Let_def
    by (auto simp: bindE_Inl_iff split: prod.splits)
  then show ?thesis
  proof cases
    case unpack
    then show ?thesis by (auto dest: unpack_batch_Inl)
  next
    case len
    then show ?thesis by (auto dest: tensor_len_Inl)
  next
    case fwd
    then show ?thesis by (auto simp: lib_call_Inl_iff)
  next
    case rows
    then show ?thesis by (auto dest: tensor_rows_Inl)
  next
    case wt
    from write_lines_Inl [OF wt] obtain t where "translation_line L c t = Inl e" by blast
    from translation_line_Inl [OF this sp tg] show ?thesis by blast
  next
    case wo
    from write_lines_Inl [OF wo] obtain t where "original_line L c t = Inl e" by blast
    from original_line_Inl [OF this sp sr] show ?thesis by blast
  qed
qed

lemma batch_loop_Inl:
  assumes sp: "target_lang (cli c) = ''ja'' \<Longrightarrow> sp_detokenizer c \<noteq> None"
    and tg: "target_detokenizer c \<noteq> None"
    and sr: "source_detokenizer c \<noteq> None"
  shows "batch_loop L c i bs st = Inl e \<Longrightarrow>
    (\<exists>msg. e = LibraryError msg) \<or> e = ValueError \<or> e = TypeError"
proof (induction bs arbitrary: i st)
  case Nil
  then show ?case by simp
next
  case (Cons b bs)
  from Cons.prems consider "process_batch L c i b st = Inl e"
    | s1 where "batch_loop L c (Suc i) bs s1 = Inl e"
    by (auto simp: bindE_Inl_iff)
  then show ?case
  proof cases
    case 1
    from process_batch_Inl [OF this sp tg sr] show ?thesis by simp
  next
    case 2
    from Cons.IH [OF this] show ?thesis .
  qed
qed

lemma write_results_Inl:
  assumes "write_results L (frame_of r a m ddp) loader w = Inl e"
  shows "e = IsADirectoryError (originals_path a r) \<or> e = IsADirectoryError (translations_path a r)
     \<or> (\<exists>msg. e = LibraryError msg) \<or> e = ValueError \<or> e = TypeError"
proof -
  let ?c = "frame_of r a m ddp"
  from assms consider "open_w (originals_file_name ?c) w = Inl e"
    | w1 where "open_w (translations_file_name ?c) w1 = Inl e"
    | s0 where "batch_loop L ?c 0 loader s0 = Inl e"
    unfolding write_results_def by (auto simp: bindE_Inl_iff)
  then show ?thesis
  proof cases
    case 1
    from open_w_Inl [OF this] show ?thesis by (simp add: frame_of_fields)
  next
    case 2
    from open_w_Inl [OF this] show ?thesis by (simp add: frame_of_fields)
  next
    case 3
    from batch_loop_Inl [OF frame_of_bound this] show ?thesis by blast
  qed
qed

lemma setup_group_Inl: "setup_group L r n a w = Inl e \<Longrightarrow> \<exists>msg. e = LibraryError msg"
  by (auto simp: setup_group_def Let_def bindE_Inl_iff lib_call_Inl_iff)

lemma load_model_Inl: "load_model L a w = Inl e \<Longrightarrow> \<exists>msg. e = LibraryError msg"
  by (auto simp: load_model_def Let_def bindE_Inl_iff lib_call_Inl_iff split: if_splits)

lemma cleanup_Inl: "cleanup L w = Inl e \<Longrightarrow> \<exists>msg. e = LibraryError msg"
  by (auto simp: cleanup_def bindE_Inl_iff lib_call_Inl_iff)

lemma translate_errors:
  assumes "translate L r n a w0 = Inl e"
  shows "(\<exists>msg. e = LibraryError msg) \<or> e = UnboundLocalError ''model''
     \<or> (e = FileExistsError (rank_result_dir a r)
          \<and> (\<exists>cs. fs w0 (rank_result_dir a r) = Some (File cs)))
     \<or> (\<exists>p. e = NotADirectoryError p) \<or> (\<exists>p. e = FileNotFoundError p)
     \<or> e = IsADirectoryError (originals_path a r)
     \<or> e = IsADirectoryError (translations_path a r)
     \<or> e = ValueError \<or> e = TypeError"
proof -
  from assms consider
      (grp) "setup_group L r n a w0 = Inl e"
    | (load) w1 where "load_model L a w1 = Inl e"
    | (unbound) "e = UnboundLocalError ''model''"
    | (lib) x :: "string + 'a" where "lib_call x = Inl e"
    | (ds) x :: "string + tensor list list" where "lib_call x = Inl e"
    | (mk) w1 b w3 where "setup_group L r n a w0 = Inr w1"
        "load_model L a (w1\<lparr>grad_enabled := False\<rparr>) = Inr (b, w3)"
        "os_makedirs (rank_result_dir a r) True w3 = Inl e"
    | (wr) m ddp loader w where "write_results L (frame_of r a m ddp) loader w = Inl e"
    | (cl) w where "cleanup L w = Inl e"
    unfolding translate_def Let_def
    by (auto simp: bindE_Inl_iff use_local_Inl_iff split: prod.splits)
  then show ?thesis
  proof cases
    case grp
    then show ?thesis by (auto dest: setup_group_Inl)
  next
    case load
    then show ?thesis by (auto dest: load_model_Inl)
  next
    case unbound
    then show ?thesis by simp
  next
    case lib
    then show ?thesis by (auto simp: lib_call_Inl_iff)
  next
    case ds
    then show ?thesis by (auto simp: lib_call_Inl_iff)
  next
    case mk
    from os_makedirs_Inl [OF mk(3)] setup_group_fs [OF mk(1)] load_model_fs [OF mk(2)]
    show ?thesis by auto
  next
    case wr
    from write_results_Inl [OF this] show ?thesis by blast
  next
    case cl
    then show ?thesis by (auto dest: cleanup_Inl)
  qed
qed

subsection \<open>The run of the concrete library\<close>

text \<open>
  The procedure evaluated on the concrete library, block by block: the values that the
  examples below refer to.
\<close>

lemma example_args_fields:
  "model example_args = ''mt.nemo''" "twoside example_args = False"
  "source_lang example_args = ''en''" "target_lang example_args = ''de''"
  "topk example_args = 500" "result_dir example_args = ''out''"
  by (simp_all add: example_args_def)

lemma example_dir: "rank_result_dir example_args 0 = ''out/rank0''"
  by (simp add: rank_result_dir_def os_path_join_def startswith_def endswith_def
      example_args_def str_nat.simps digit_char_def)

lemma example_dir1: "rank_result_dir example_args 1 = ''out/rank1''"
  by (simp add: rank_result_dir_def os_path_join_def startswith_def endswith_def
      example_args_def str_nat.simps digit_char_def)

lemma example_originals: "originals_path example_args 0 = ''out/rank0/originals.txt''"
  by (simp add: originals_path_def example_dir os_path_join_def startswith_def endswith_def)

lemma example_translations: "translations_path example_args 0 = ''out/rank0/translations.txt''"
  by (simp add: translations_path_def example_dir os_path_join_def startswith_def endswith_def)

lemma example_frame:
  "frame_of 0 example_args m d =
     \<lparr>rank = 0, cli = example_args, mt_model = m, ddp_model = d,
      target_detokenizer = Some (MosesDetokenizer ''de''),
      sp_detokenizer = Some SentencePieceDetokenizer,
      source_detokenizer = Some (MosesDetokenizer ''en''),
      originals_file_name = ''out/rank0/originals.txt'',
      translations_file_name = ''out/rank0/translations.txt''\<rparr>"
  by (simp add: frame_of_def select_target_detokenizer_def select_sp_detokenizer_def
      select_source_detokenizer_def sp_condition_def example_args_fields
      example_originals example_translations)

lemma example_text:
  "ids_text \<lparr>shape = sh, elems = map (\<lambda>c. int (of_char c)) s, device = dv\<rparr> = s"
  by (simp add: ids_text_def comp_def)

lemma ids_text_example_row: "ids_text (example_row s) = s"
  by (simp add: example_row_def example_text)

lemma example_rows:
  "tensor_rows \<lparr>shape = [2, 3], elems = es, device = dv\<rparr> =
     Inr [\<lparr>shape = [3], elems = take 3 es, device = dv\<rparr>,
          \<lparr>shape = [3], elems = take 3 (drop 3 es), device = dv\<rparr>]"
  by (simp add: tensor_rows_def upt_rec)

lemma split_examples:
  "join '' '' (split ''a b'') = ''a b''" "join '' '' (split ''c d'') = ''c d''"
  "join '' '' (split ''e f'') = ''e f''" "join '' '' (split ''g h'') = ''g h''"
  by (simp_all add: split_def is_space_def)

lemma example_line:
  "translation_line example_lib (frame_of 0 example_args m d) t =
     Inr (join '' '' (split (ids_text t)))"
  "original_line example_lib (frame_of 0 example_args m d) t =
     Inr (join '' '' (split (ids_text t)))"
  by (simp_all add: translation_line_def original_line_def example_frame example_args_fields
      example_lib_def)

lemma example_batch:
  assumes "length s1 = 3" "length s2 = 3"
  shows "process_batch example_lib (frame_of 0 example_args m d) i
           (map unsqueeze0 (example_sample s1 s2)) st =
         Inr \<lparr>world_of =
                file_write ''out/rank0/originals.txt'' (join '' '' (split s2) @ [CHR 0x0A])
               (file_write ''out/rank0/originals.txt'' (join '' '' (split s1) @ [CHR 0x0A])
               (file_write ''out/rank0/translations.txt'' (join '' '' (split s2) @ [CHR 0x0A])
               (file_write ''out/rank0/translations.txt'' (join '' '' (split s1) @ [CHR 0x0A])
               (log_progress (frame_of 0 example_args m d) i st)))),
              num_translated_sentences = num_translated_sentences st + 2\<rparr>"
proof -
  have prep: "prepare_batch 0 (map unsqueeze0 (example_sample s1 s2)) =
      [\<lparr>shape = [2, 3], elems = map (\<lambda>c. int (of_char c)) (s1 @ s2), device = CUDA 0\<rparr>,
       \<lparr>shape = [2, 3], elems = [1, 1, 1, 1, 1, 1], device = CUDA 0\<rparr>]"
    by (simp add: prepare_batch_def prepare_tensor_def unsqueeze0_def example_sample_def
        ndim_def squeeze0_def to_device_def)
  have fr: "rank (frame_of 0 example_args m d) = 0" "cli (frame_of 0 example_args m d) = example_args"
    "originals_file_name (frame_of 0 example_args m d) = ''out/rank0/originals.txt''"
    "translations_file_name (frame_of 0 example_args m d) = ''out/rank0/translations.txt''"
    by (simp_all add: example_frame)
  have fw: "forward example_lib md x y = Inr x" for md x y
    by (simp add: example_lib_def)
  show ?thesis
    unfolding process_batch_def write_batch_def Let_def fr prep
    by (simp add: unpack_batch_def example_args_fields tensor_len_def fw cpu_numpy_def
        example_rows example_line example_text assms)
qed

lemma example_loader:
  "DataLoader (example_samples (make_dataset r n example_args m)) =
     [map unsqueeze0 (example_sample ''a b'' ''c d''),
      map unsqueeze0 (example_sample ''e f'' ''g h'')]"
  by (simp add: DataLoader_def example_samples_def make_dataset_def example_args_fields)

lemma example_loop_replicate:
  "\<exists>st'. batch_loop example_lib (frame_of 0 example_args m d) i
           (replicate n (map unsqueeze0 (example_sample ''a b'' ''c d''))) st = Inr st'
        \<and> num_translated_sentences st' = num_translated_sentences st + 2 * n"
proof (induction n arbitrary: i st)
  case 0
  then show ?case by simp
next
  case (Suc n)
  let ?s1 = "\<lparr>world_of =
                file_write ''out/rank0/originals.txt'' (join '' '' (split ''c d'') @ [CHR 0x0A])
               (file_write ''out/rank0/originals.txt'' (join '' '' (split ''a b'') @ [CHR 0x0A])
               (file_write ''out/rank0/translations.txt'' (join '' '' (split ''c d'') @ [CHR 0x0A])
               (file_write ''out/rank0/translations.txt'' (join '' '' (split ''a b'') @ [CHR 0x0A])
               (log_progress (frame_of 0 example_args m d) i st)))),
              num_translated_sentences = num_translated_sentences st + 2\<rparr>"
  from Suc.IH [of "Suc i" ?s1] obtain st' where
    "batch_loop example_lib (frame_of 0 example_args m d) (Suc i)
           (replicate n (map unsqueeze0 (example_sample ''a b'' ''c d''))) ?s1 = Inr st'"
    "num_translated_sentences st' = num_translated_sentences ?s1 + 2 * n"
    by blast
  then show ?case
    by (simp add: example_batch)
qed

lemma example_with_block:
  "\<exists>st. write_results example_lib (frame_of 0 example_args m d)
          [map unsqueeze0 (example_sample ''a b'' ''c d''),
           map unsqueeze0 (example_sample ''e f'' ''g h'')] example_world = Inr st"
proof -
  have fr: "originals_file_name (frame_of 0 example_args m d) = ''out/rank0/originals.txt''"
    "translations_file_name (frame_of 0 example_args m d) = ''out/rank0/translations.txt''"
    by (simp_all add: example_frame)
  show ?thesis
    unfolding write_results_def
    by (simp add: fr open_w_def example_world_def example_batch)
qed

lemma example_split: "makedirs_split ''out/rank0'' = (''out'', ''rank0'')"
  by (simp add: makedirs_split_def path_split_def Let_def all_slashes_def rstrip_slashes_def)

lemma example_makedirs:
  assumes "fs w ''out'' = Some Dir" and "fs w ''out/rank0'' = Some Dir"
  shows "os_makedirs ''out/rank0'' True w = Inr w"
proof -
  have parent: "parent_lookup w ''out/rank0'' = Some Dir"
    using assms(1) by (simp add: parent_lookup_def example_split path_lookup_def all_slashes_def)
  have "mkdir_leaf ''out/rank0'' True w = Inr w"
    using assms(2) parent
    by (simp add: mkdir_leaf_def os_mkdir_def path_lookup_def all_slashes_def)
  with os_makedirs_parent_found [OF parent] show ?thesis by simp
qed

lemma example_run:
  "\<exists>st. translate example_lib 0 1 example_args example_world = Inr st
     \<and> file_chunks (world_of st) ''out/rank0/originals.txt'' =
         [''a b\<newline>'', ''c d\<newline>'', ''e f\<newline>'', ''g h\<newline>'']
     \<and> file_chunks (world_of st) ''out/rank0/translations.txt'' =
         [''a b\<newline>'', ''c d\<newline>'', ''e f\<newline>'', ''g h\<newline>'']
     \<and> log_lines (world_of st) =
         [''Attempting to initialize from .nemo file'',
          ''0 batches (0 sentences) were translated by process with rank 0'']
     \<and> num_translated_sentences st = 4
     \<and> open_files (world_of st) = []
     \<and> fs (world_of st) ''out/rank0'' = Some Dir
     \<and> process_group (world_of st) = None"
proof -
  have fr: "rank (frame_of 0 example_args m d) = 0"
    "originals_file_name (frame_of 0 example_args m d) = ''out/rank0/originals.txt''"
    "translations_file_name (frame_of 0 example_args m d) = ''out/rank0/translations.txt''"
    for m d :: string
    by (simp_all add: example_frame)
  have lib: "init_process_group example_lib b r n = Inr ()"
    "destroy_process_group example_lib u = Inr ()"
    "restore_from example_lib p = Inr p"
    "replace_beam_with_sampling example_lib m k = Inr m"
    "model_to example_lib m r = Inr m"
    "DDP example_lib m ids = Inr m"
    "eval_mode example_lib m = Inr m"
    "samples example_lib ds = Inr (example_samples ds)"
    for b r n u p m k ids ds
    by (simp_all add: example_lib_def)
  show ?thesis
    unfolding translate_def Let_def
    by (simp add: setup_group_def load_model_def lib example_args_fields endswith_def
        example_loader example_dir example_makedirs example_world_def write_results_def fr
        open_w_def example_batch split_examples file_write_def file_chunks_def
        log_progress_def logging_info_def progress_message_def str_nat.simps digit_char_def
        file_close_def cleanup_def)
qed

section \<open>The claims\<close>

subsection \<open>Loading the model (C1)\<close>

text \<open>
  Claim C1. A model path that ends neither in \<^verbatim>\<open>.nemo\<close> nor in \<^verbatim>\<open>.ckpt\<close> binds no
  model and raises nothing where the model is loaded, the world unchanged; once the
  process group is joined, the run then fails with the unbound name \<^verbatim>\<open>model\<close>, at its
  first use, the call of \<^verbatim>\<open>replace_beam_with_sampling\<close>. A path ending in \<^verbatim>\<open>.nemo\<close>
  is restored with \<^verbatim>\<open>restore_from\<close>, a path ending in \<^verbatim>\<open>.ckpt\<close> is loaded with
  \<^verbatim>\<open>load_from_checkpoint\<close>.
\<close>

theorem model_loading_by_extension:
  "(\<not> endswith (model a) ''.nemo'' \<and> \<not> endswith (model a) ''.ckpt'' \<longrightarrow>
      load_model L a w = Inr (None, w)
      \<and> (\<forall>w1. setup_group L r n a w0 = Inr w1 \<longrightarrow>
            translate L r n a w0 = Inl (UnboundLocalError ''model'')))
   \<and> (endswith (model a) ''.nemo'' \<longrightarrow>
      load_model L a w =
        bindE (lib_call (restore_from L (model a)))
          (\<lambda>m. Inr (Some m, logging_info ''Attempting to initialize from .nemo file'' w)))
   \<and> (endswith (model a) ''.ckpt'' \<longrightarrow>
      load_model L a w =
        bindE (lib_call (load_from_checkpoint L (model a)))
          (\<lambda>m. Inr (Some m, logging_info ''Attempting to initialize from .ckpt file'' w)))"
  by (auto simp: load_model_def translate_def Let_def dest: ckpt_not_nemo)

theorem model_loading_by_extension_witness:
  "translate example_lib 0 1 (example_args\<lparr>model := ''weights.bin''\<rparr>) example_world
     = Inl (UnboundLocalError ''model'')
   \<and> load_model example_lib (example_args\<lparr>model := ''weights.bin''\<rparr>) example_world
     = Inr (None, example_world)
   \<and> load_model example_lib example_args example_world
     = Inr (Some ''mt.nemo'',
            logging_info ''Attempting to initialize from .nemo file'' example_world)
   \<and> load_model example_lib (example_args\<lparr>model := ''last.ckpt''\<rparr>) example_world
     = Inr (Some ''last.ckpt'',
            logging_info ''Attempting to initialize from .ckpt file'' example_world)"
  using model_loading_by_extension [of "example_args\<lparr>model := ''weights.bin''\<rparr>"
          example_lib example_world 0 1 example_world]
        model_loading_by_extension [of example_args example_lib example_world 0 1 example_world]
        model_loading_by_extension [of "example_args\<lparr>model := ''last.ckpt''\<rparr>"
          example_lib example_world 0 1 example_world]
  by (simp add: endswith_def example_args_def example_lib_def setup_group_def)

subsection \<open>The sub-word pass (C2)\<close>

text \<open>
  Claim C2, on the source line. The line written for a source sentence gets the
  sub-word pass according to \<^verbatim>\<open>target_lang\<close>, not \<^verbatim>\<open>source_lang\<close>: with the source
  language \<^verbatim>\<open>ja\<close> and the target language \<^verbatim>\<open>en\<close> the text of the encoder tokenizer goes
  straight to the \<^verbatim>\<open>MosesDetokenizer\<close> of \<^verbatim>\<open>ja\<close>, and with the source language \<^verbatim>\<open>en\<close>
  and the target language \<^verbatim>\<open>ja\<close> it goes through the \<^verbatim>\<open>SentencePieceDetokenizer\<close>
  first. On the concrete library the two lines for the source sentence \<open>a b\<close> are
  \<open>a b\<close> and \<open>a_b\<close>.
\<close>

theorem source_line_pass_follows_target_lang:
  "original_line L (frame_of r (a\<lparr>source_lang := ''ja'', target_lang := ''en''\<rparr>) m ddp) o_ids =
     bindE (lib_call (encoder_ids_to_text L m o_ids))
       (\<lambda>o1. detokenize L (MosesDetokenizer ''ja'') (split o1))
   \<and> original_line L (frame_of r (a\<lparr>source_lang := ''en'', target_lang := ''ja''\<rparr>) m ddp) o_ids =
     bindE (lib_call (encoder_ids_to_text L m o_ids))
       (\<lambda>o1. bindE (detokenize L SentencePieceDetokenizer (split o1))
          (\<lambda>o2. detokenize L (MosesDetokenizer ''en'') (split o2)))
   \<and> original_line example_lib
       (frame_of 0 (example_args\<lparr>source_lang := ''ja'', target_lang := ''en''\<rparr>)
          ''mt.nemo'' ''mt.nemo'')
       (example_row ''a b'') = Inr ''a b''
   \<and> original_line example_lib
       (frame_of 0 (example_args\<lparr>source_lang := ''en'', target_lang := ''ja''\<rparr>)
          ''mt.nemo'' ''mt.nemo'')
       (example_row ''a b'') = Inr ''a_b''"
  by (simp add: original_line_def frame_of_def select_sp_detokenizer_def sp_condition_def
      select_source_detokenizer_def example_lib_def ids_text_example_row split_def is_space_def)

subsection \<open>Lines and sentences (C3)\<close>

text \<open>
  Claim C3. Suppose that inference returns as many output sequences as it is given input
  sequences. When the procedure completes, the file of originals and the file of
  translations of the rank hold the same number of written lines, the final value of
  \<^verbatim>\<open>num_translated_sentences\<close>, each line being one text followed by a newline.
\<close>

theorem lines_equal_sentences:
  assumes one: "\<forall>m s k out. forward L m s k = Inr out \<longrightarrow> tensor_len out = tensor_len s"
    and run: "translate L r n a w0 = Inr st"
  shows "length (file_chunks (world_of st) (originals_path a r)) = num_translated_sentences st
       \<and> length (file_chunks (world_of st) (translations_path a r)) = num_translated_sentences st
       \<and> (\<exists>ls. file_chunks (world_of st) (originals_path a r) = map (\<lambda>l. l @ [CHR 0x0A]) ls)
       \<and> (\<exists>ls. file_chunks (world_of st) (translations_path a r) = map (\<lambda>l. l @ [CHR 0x0A]) ls)"
proof -
  from run obtain m2 ddp ds w4 st1 w5 where
    wr: "write_results L (frame_of r a m2 ddp) (DataLoader ds) w4 = Inr st1"
    and cl: "cleanup L (world_of st1) = Inr w5"
    and st: "st = st1\<lparr>world_of := w5\<rparr>"
    unfolding translate_Inr_iff by blast
  let ?c = "frame_of r a m2 ddp"
  have distinct: "originals_file_name ?c \<noteq> translations_file_name ?c"
    by (simp add: frame_of_fields files_distinct)
  from wr obtain w1 w2 s2 where
    o1: "open_w (originals_file_name ?c) w4 = Inr w1"
    and o2: "open_w (translations_file_name ?c) w1 = Inr w2"
    and loop: "batch_loop L ?c 0 (DataLoader ds)
                 \<lparr>world_of = w2, num_translated_sentences = 0\<rparr> = Inr s2"
    and st1: "st1 = s2\<lparr>world_of :=
                  file_close (originals_file_name ?c)
                    (file_close (translations_file_name ?c) (world_of s2))\<rparr>"
    unfolding write_results_Inr_iff by blast
  note empty = opened_empty(1,2) [OF o1 o2 distinct]
  from batch_loop_counts [OF one distinct loop] obtain k where
    k: "num_translated_sentences s2 = k"
       "length (file_chunks (world_of s2) (originals_file_name ?c)) = k"
       "length (file_chunks (world_of s2) (translations_file_name ?c)) = k"
    by (auto simp: empty)
  from batch_loop_appends [OF loop distinct, of "originals_file_name ?c"] obtain lo where
    lo: "file_chunks (world_of s2) (originals_file_name ?c) = map (\<lambda>l. l @ [CHR 0x0A]) lo"
    by (auto simp: empty)
  from batch_loop_appends [OF loop distinct, of "translations_file_name ?c"] obtain lt where
    lt: "file_chunks (world_of s2) (translations_file_name ?c) = map (\<lambda>l. l @ [CHR 0x0A]) lt"
    by (auto simp: empty)
  have same: "file_chunks (world_of st) p = file_chunks (world_of s2) p" for p
    using cleanup_effect [OF cl]
    by (simp add: st st1 file_chunks_def file_close_fields)
  have num: "num_translated_sentences st = num_translated_sentences s2"
    by (simp add: st st1)
  from k lo lt show ?thesis
    by (simp add: same num frame_of_fields) blast
qed

theorem lines_equal_sentences_witness:
  "map_sum id
     (\<lambda>st. (length (file_chunks (world_of st) (originals_path example_args 0)),
            length (file_chunks (world_of st) (translations_path example_args 0)),
            num_translated_sentences st))
     (translate example_lib 0 1 example_args example_world) = Inr (4, 4, 4)"
proof -
  from example_run obtain st where
    run: "translate example_lib 0 1 example_args example_world = Inr st"
    and num: "num_translated_sentences st = 4"
    by blast
  have one: "\<forall>m s k out. forward example_lib m s k = Inr out \<longrightarrow> tensor_len out = tensor_len s"
    by (simp add: example_lib_def)
  from lines_equal_sentences [OF one run] show ?thesis
    unfolding run by (simp add: num)
qed

subsection \<open>The two output files (C4)\<close>

text \<open>
  Claim C4, as stated, fails where it says that content present in the files before the
  run is preserved: the files are opened with mode \<^verbatim>\<open>'w'\<close>. In the concrete world the
  file of originals holds one line of an earlier run; after the run it holds the four
  lines of this run and nothing else.
\<close>

theorem prior_content_counterexample:
  "file_chunks example_world ''out/rank0/originals.txt'' = [''earlier run'']
   \<and> \<not> isl (translate example_lib 0 1 example_args example_world)
   \<and> file_chunks (world_of (projr (translate example_lib 0 1 example_args example_world)))
        ''out/rank0/originals.txt'' =
       [''a b\<newline>'', ''c d\<newline>'', ''e f\<newline>'', ''g h\<newline>'']"
proof -
  from example_run obtain st where
    run: "translate example_lib 0 1 example_args example_world = Inr st"
    and o: "file_chunks (world_of st) ''out/rank0/originals.txt'' =
         [''a b\<newline>'', ''c d\<newline>'', ''e f\<newline>'', ''g h\<newline>'']"
    by blast
  have before: "file_chunks example_world ''out/rank0/originals.txt'' = [''earlier run'']"
    by (simp add: file_chunks_def example_world_def)
  show ?thesis
    unfolding run by (simp add: o before)
qed

text \<open>
  Claim C4, amended. The \<^verbatim>\<open>with\<close> statement opens the two files once, before the loop,
  for writing: each is empty once opened, whatever it held before, and both are open.
  They stay open over the loop, and whatever the files hold after any number of batches
  is still there, followed by the later lines, when the loop ends: writes only append.
  When the statement completes the files hold what the loop left and both are closed.
\<close>

theorem output_files_truncated_then_appended:
  assumes run: "write_results L (frame_of r a m ddp) loader w = Inr st"
  shows "\<exists>w1 w2 st2.
       open_w (originals_path a r) w = Inr w1
     \<and> open_w (translations_path a r) w1 = Inr w2
     \<and> file_chunks w2 (originals_path a r) = []
     \<and> file_chunks w2 (translations_path a r) = []
     \<and> open_files w2 = open_files w @ [originals_path a r, translations_path a r]
     \<and> batch_loop L (frame_of r a m ddp) 0 loader
          \<lparr>world_of = w2, num_translated_sentences = 0\<rparr> = Inr st2
     \<and> (\<forall>k \<le> length loader. \<exists>sk lo lt.
           batch_loop L (frame_of r a m ddp) 0 (take k loader)
             \<lparr>world_of = w2, num_translated_sentences = 0\<rparr> = Inr sk
         \<and> open_files (world_of sk) = open_files w2
         \<and> file_chunks (world_of st2) (originals_path a r) =
             file_chunks (world_of sk) (originals_path a r) @ lo
         \<and> file_chunks (world_of st2) (translations_path a r) =
             file_chunks (world_of sk) (translations_path a r) @ lt)
     \<and> fs (world_of st) = fs (world_of st2)
     \<and> open_files (world_of st) =
         removeAll (originals_path a r) (removeAll (translations_path a r) (open_files w2))
     \<and> originals_path a r \<notin> set (open_files (world_of st))
     \<and> translations_path a r \<notin> set (open_files (world_of st))"
proof -
  let ?c = "frame_of r a m ddp"
  let ?s0 = "\<lambda>w2. \<lparr>world_of = w2, num_translated_sentences = 0\<rparr>"
  have distinct: "originals_file_name ?c \<noteq> translations_file_name ?c"
    by (simp add: frame_of_fields files_distinct)
  from run obtain w1 w2 s2 where
    o1: "open_w (originals_file_name ?c) w = Inr w1"
    and o2: "open_w (translations_file_name ?c) w1 = Inr w2"
    and loop: "batch_loop L ?c 0 loader (?s0 w2) = Inr s2"
    and st: "st = s2\<lparr>world_of :=
                  file_close (originals_file_name ?c)
                    (file_close (translations_file_name ?c) (world_of s2))\<rparr>"
    unfolding write_results_Inr_iff by blast
  note opened = opened_empty [OF o1 o2 distinct]
  have prefixes: "\<exists>sk lo lt.
           batch_loop L ?c 0 (take k loader) (?s0 w2) = Inr sk
         \<and> open_files (world_of sk) = open_files w2
         \<and> file_chunks (world_of s2) (originals_path a r) =
             file_chunks (world_of sk) (originals_path a r) @ lo
         \<and> file_chunks (world_of s2) (translations_path a r) =
             file_chunks (world_of sk) (translations_path a r) @ lt" for k
  proof -
    from loop have "batch_loop L ?c 0 (take k loader @ drop k loader) (?s0 w2) = Inr s2"
      by simp
    then obtain sk where
      first: "batch_loop L ?c 0 (take k loader) (?s0 w2) = Inr sk"
      and rest: "batch_loop L ?c (0 + length (take k loader)) (drop k loader) sk = Inr s2"
      unfolding batch_loop_append by (auto simp: bindE_Inr_iff)
    from batch_loop_frame [OF first] have op: "open_files (world_of sk) = open_files w2"
      by simp
    from batch_loop_appends [OF rest distinct, of "originals_path a r"] obtain lo where
      lo: "file_chunks (world_of s2) (originals_path a r) =
             file_chunks (world_of sk) (originals_path a r) @ map (\<lambda>l. l @ [CHR 0x0A]) lo"
      by blast
    from batch_loop_appends [OF rest distinct, of "translations_path a r"] obtain lt where
      lt: "file_chunks (world_of s2) (translations_path a r) =
             file_chunks (world_of sk) (translations_path a r) @ map (\<lambda>l. l @ [CHR 0x0A]) lt"
      by blast
    from first op lo lt show ?thesis by blast
  qed
  have closed: "open_files (world_of st) =
         removeAll (originals_path a r) (removeAll (translations_path a r) (open_files w2))"
    using batch_loop_frame [OF loop]
    by (simp add: st file_close_fields frame_of_fields)
  have fin: "fs (world_of st) = fs (world_of s2)"
    by (simp add: st file_close_fields)
  have o1': "open_w (originals_path a r) w = Inr w1"
    using o1 by (simp add: frame_of_fields)
  have o2': "open_w (translations_path a r) w1 = Inr w2"
    using o2 by (simp add: frame_of_fields)
  have empty: "file_chunks w2 (originals_path a r) = []"
    "file_chunks w2 (translations_path a r) = []"
    "open_files w2 = open_files w @ [originals_path a r, translations_path a r]"
    using opened(1,2,4) by (simp_all add: frame_of_fields)
  show ?thesis
    apply (rule exI [of _ w1], rule exI [of _ w2], rule exI [of _ s2])
    apply (intro conjI allI impI)
              apply (rule o1')
             apply (rule o2')
            apply (rule empty(1))
           apply (rule empty(2))
          apply (rule empty(3))
         apply (rule loop)
        apply (rule prefixes)
       apply (rule fin)
      apply (rule closed)
     apply (simp add: closed)
    apply (simp add: closed)
    done
qed

theorem output_files_truncated_then_appended_witness:
  "\<not> isl (write_results example_lib (frame_of 0 example_args ''mt.nemo'' ''mt.nemo'')
          [map unsqueeze0 (example_sample ''a b'' ''c d''),
           map unsqueeze0 (example_sample ''e f'' ''g h'')] example_world)
   \<and> file_chunks example_world (originals_path example_args 0) = [''earlier run'']
   \<and> file_chunks
        (projr (bindE (open_w (originals_path example_args 0) example_world)
                  (open_w (translations_path example_args 0))))
        (originals_path example_args 0) = []
   \<and> originals_path example_args 0 \<notin> set (open_files (world_of (projr
        (write_results example_lib (frame_of 0 example_args ''mt.nemo'' ''mt.nemo'')
          [map unsqueeze0 (example_sample ''a b'' ''c d''),
           map unsqueeze0 (example_sample ''e f'' ''g h'')] example_world))))"
proof -
  from example_with_block [of "''mt.nemo''" "''mt.nemo''"] obtain st where
    run: "write_results example_lib (frame_of 0 example_args ''mt.nemo'' ''mt.nemo'')
          [map unsqueeze0 (example_sample ''a b'' ''c d''),
           map unsqueeze0 (example_sample ''e f'' ''g h'')] example_world = Inr st"
    by blast
  from output_files_truncated_then_appended [OF run] obtain w1 w2 where
    o1: "open_w (originals_path example_args 0) example_world = Inr w1"
    and o2: "open_w (translations_path example_args 0) w1 = Inr w2"
    and e: "file_chunks w2 (originals_path example_args 0) = []"
    and c: "originals_path example_args 0 \<notin> set (open_files (world_of st))"
    by blast
  have before: "file_chunks example_world (originals_path example_args 0) = [''earlier run'']"
    by (simp add: example_originals file_chunks_def example_world_def)
  show ?thesis
    unfolding run o1 by (simp add: o2 e c before)
qed

subsection \<open>The dataset and the batch (C5)\<close>



subsection \<open>The progress log (C6)\<close>

text \<open>
  Claim C6. Over a loop that completes, the log grows by one progress message for each
  batch index divisible by 100, the first batch (index 0) included, and by nothing for
  any other batch; the message for batch \<open>k\<close> reports the number of sentences counted
  over the batches before \<open>k\<close>.
\<close>

theorem progress_every_hundred_batches:
  "batch_loop L c 0 loader st0 = Inr st \<Longrightarrow>
     log_lines (world_of st) =
       log_lines (world_of st0) @
         map (\<lambda>k. progress_message k (sentences_before L c loader st0 k) (rank c))
           (filter (\<lambda>k. k mod 100 = 0) [0..<length loader])"
proof (induction loader arbitrary: st rule: rev_induct)
  case Nil
  then show ?case by simp
next
  case (snoc x xs)
  from snoc.prems obtain s1 where xs: "batch_loop L c 0 xs st0 = Inr s1"
    and x: "process_batch L c (length xs) x s1 = Inr st"
    by (auto simp: batch_loop_append bindE_Inr_iff)
  have before: "sentences_before L c (xs @ [x]) st0 (length xs) = num_translated_sentences s1"
    by (simp add: sentences_before_def xs)
  have same: "map (\<lambda>k. progress_message k (sentences_before L c (xs @ [x]) st0 k) (rank c))
           (filter (\<lambda>k. k mod 100 = 0) [0..<length xs]) =
        map (\<lambda>k. progress_message k (sentences_before L c xs st0 k) (rank c))
           (filter (\<lambda>k. k mod 100 = 0) [0..<length xs])"
    by (rule map_cong) (auto simp: sentences_before_snoc)
  from process_batch_frame [OF x] have
    "log_lines (world_of st) =
          log_lines (world_of s1) @
            (if length xs mod 100 = 0
             then [progress_message (length xs) (num_translated_sentences s1) (rank c)] else [])"
    by blast
  then show ?case
    by (simp add: snoc.IH [OF xs] same before)
qed

theorem progress_every_hundred_batches_witness:
  "map_sum id (\<lambda>st. log_lines (world_of st))
     (batch_loop example_lib (frame_of 0 example_args ''mt.nemo'' ''mt.nemo'') 0
        (replicate 101 (map unsqueeze0 (example_sample ''a b'' ''c d'')))
        \<lparr>world_of = example_world, num_translated_sentences = 0\<rparr>) =
   Inr [''0 batches (0 sentences) were translated by process with rank 0'',
        ''100 batches (200 sentences) were translated by process with rank 0'']"
proof -
  let ?c = "frame_of 0 example_args ''mt.nemo'' ''mt.nemo''"
  let ?b = "map unsqueeze0 (example_sample ''a b'' ''c d'')"
  let ?st0 = "\<lparr>world_of = example_world, num_translated_sentences = 0\<rparr>"
  from example_loop_replicate [of "''mt.nemo''" "''mt.nemo''" 0 101 ?st0] obtain st where
    run: "batch_loop example_lib ?c 0 (replicate 101 ?b) ?st0 = Inr st"
    by blast
  from example_loop_replicate [of "''mt.nemo''" "''mt.nemo''" 0 100 ?st0]
  have b100: "sentences_before example_lib ?c (replicate 101 ?b) ?st0 100 = 200"
    by (auto simp: sentences_before_def)
  have b0: "sentences_before example_lib ?c (replicate 101 ?b) ?st0 0 = 0"
    by (simp add: sentences_before_def)
  have idx: "filter (\<lambda>k. k mod 100 = 0) [0..<101] = [0, 100::nat]"
    by (simp add: upt_rec)
  have msgs: "progress_message 0 0 0 =
       ''0 batches (0 sentences) were translated by process with rank 0''"
     "progress_message 100 200 0 =
       ''100 batches (200 sentences) were translated by process with rank 0''"
    by (simp_all add: progress_message_def str_nat.simps digit_char_def)
  have r: "rank ?c = 0" by (simp add: frame_of_fields)
  have l0: "log_lines example_world = []" by (simp add: example_world_def)
  from progress_every_hundred_batches [OF run] show ?thesis
    unfolding run by (simp add: idx b0 b100 msgs r l0)
qed

subsection \<open>The detokenizers (C7)\<close>

text \<open>
  Claim C7. The target detokenizer is the Chinese one, \<^verbatim>\<open>PanguJiebaDetokenizer\<close>, when
  \<^verbatim>\<open>target_lang\<close> is \<^verbatim>\<open>zh\<close>, and \<^verbatim>\<open>MosesDetokenizer\<close> for the target language
  otherwise; the same holds of the source detokenizer and \<^verbatim>\<open>source_lang\<close>. Both names
  are bound, to exactly that one object, whatever the two language codes are, and these
  are the detokenizers the loop uses.
\<close>

theorem detokenizer_selection:
  "select_target_detokenizer a =
     Some (if target_lang a = ''zh'' then PanguJiebaDetokenizer
           else MosesDetokenizer (target_lang a))
   \<and> select_source_detokenizer a =
     Some (if source_lang a = ''zh'' then PanguJiebaDetokenizer
           else MosesDetokenizer (source_lang a))
   \<and> target_detokenizer (frame_of r a m ddp) = select_target_detokenizer a
   \<and> source_detokenizer (frame_of r a m ddp) = select_source_detokenizer a"
  by (simp add: select_target_detokenizer_def select_source_detokenizer_def frame_of_def)

subsection \<open>The rank's directory (C8)\<close>

text \<open>
  Claim C8. For every rank and every \<^verbatim>\<open>result_dir\<close>, the rank's output directory is
  \<^verbatim>\<open>result_dir\<close> joined with \<^verbatim>\<open>rank<N>\<close>, and the two files are \<^verbatim>\<open>originals.txt\<close>
  and \<^verbatim>\<open>translations.txt\<close> joined to it: after a run that completes, the directory
  and both files exist there. In a directory that exists, the rank's directory is created
  when it is absent and left as it is, with no error, when it is there already. Whenever
  \<^verbatim>\<open>os.makedirs\<close> returns, the rank's directory exists and nothing that existed before
  has changed. It fails only with \<^verbatim>\<open>FileExistsError\<close>, when a file that is not a
  directory has the directory's name, or with \<^verbatim>\<open>NotADirectoryError\<close> or
  \<^verbatim>\<open>FileNotFoundError\<close> from the path above it, as when the directory that should hold
  it is a file; and a run ends in \<^verbatim>\<open>FileExistsError\<close> only in the first of these cases.
\<close>

theorem rank_output_directory:
  "rank_result_dir a r = os_path_join (result_dir a) (''rank'' @ str_nat r)
   \<and> rank_result_dir a r =
       (if result_dir a = [] \<or> endswith (result_dir a) ''/''
        then result_dir a @ ''rank'' @ str_nat r
        else result_dir a @ ''/rank'' @ str_nat r)
   \<and> originals_file_name (frame_of r a m ddp) =
       os_path_join (rank_result_dir a r) ''originals.txt''
   \<and> translations_file_name (frame_of r a m ddp) =
       os_path_join (rank_result_dir a r) ''translations.txt''
   \<and> (translate L r n a w0 = Inr st \<longrightarrow>
         fs (world_of st) (rank_result_dir a r) = Some Dir
         \<and> (\<exists>cs. fs (world_of st) (originals_path a r) = Some (File cs))
         \<and> (\<exists>cs. fs (world_of st) (translations_path a r) = Some (File cs)))
   \<and> (parent_lookup w (rank_result_dir a r) = Some Dir
        \<and> fs w (rank_result_dir a r) = None \<longrightarrow>
         os_makedirs (rank_result_dir a r) True w =
           Inr (w\<lparr>fs := (fs w)(rank_result_dir a r \<mapsto> Dir)\<rparr>))
   \<and> (parent_lookup w (rank_result_dir a r) = Some Dir
        \<and> fs w (rank_result_dir a r) = Some Dir \<longrightarrow>
         os_makedirs (rank_result_dir a r) True w = Inr w)
   \<and> (parent_lookup w (rank_result_dir a r) = Some (File cs)
        \<and> fs w (rank_result_dir a r) = None \<longrightarrow>
         os_makedirs (rank_result_dir a r) True w =
           Inl (NotADirectoryError (rank_result_dir a r)))
   \<and> (os_makedirs (rank_result_dir a r) True w = Inr w' \<longrightarrow>
         fs w' (rank_result_dir a r) = Some Dir
         \<and> (\<forall>q. fs w' q = fs w q \<or> (fs w q = None \<and> fs w' q = Some Dir)))
   \<and> (os_makedirs (rank_result_dir a r) True w = Inl e \<longrightarrow>
         (e = FileExistsError (rank_result_dir a r)
            \<and> (\<exists>cs. fs w (rank_result_dir a r) = Some (File cs)))
         \<or> (\<exists>p. e = NotADirectoryError p) \<or> (\<exists>p. e = FileNotFoundError p))
   \<and> (translate L r n a w0 = Inl (FileExistsError p) \<longrightarrow>
         (\<exists>cs. fs w0 (rank_result_dir a r) = Some (File cs)))"
proof -
  let ?d = "rank_result_dir a r"
  have path: "?d =
       (if result_dir a = [] \<or> endswith (result_dir a) ''/''
        then result_dir a @ ''rank'' @ str_nat r
        else result_dir a @ ''/rank'' @ str_nat r)"
    by (simp add: rank_result_dir_def os_path_join_def startswith_def)
  have completed: "fs (world_of st) ?d = Some Dir
         \<and> (\<exists>cs. fs (world_of st) (originals_path a r) = Some (File cs))
         \<and> (\<exists>cs. fs (world_of st) (translations_path a r) = Some (File cs))"
    if run: "translate L r n a w0 = Inr st"
  proof -
    from run obtain m2 ddp2 ds w3 w4 st1 w5 where
      mk: "os_makedirs ?d True w3 = Inr w4"
      and wr: "write_results L (frame_of r a m2 ddp2) (DataLoader ds) w4 = Inr st1"
      and cl: "cleanup L (world_of st1) = Inr w5"
      and st: "st = st1\<lparr>world_of := w5\<rparr>"
      unfolding translate_Inr_iff by blast
    let ?c = "frame_of r a m2 ddp2"
    have distinct: "originals_file_name ?c \<noteq> translations_file_name ?c"
      by (simp add: frame_of_fields files_distinct)
    from wr obtain w1 w2 s2 where
      o1: "open_w (originals_file_name ?c) w4 = Inr w1"
      and o2: "open_w (translations_file_name ?c) w1 = Inr w2"
      and loop: "batch_loop L ?c 0 (DataLoader ds)
                   \<lparr>world_of = w2, num_translated_sentences = 0\<rparr> = Inr s2"
      and st1: "st1 = s2\<lparr>world_of :=
                    file_close (originals_file_name ?c)
                      (file_close (translations_file_name ?c) (world_of s2))\<rparr>"
      unfolding write_results_Inr_iff by blast
    have fs2: "fs w2 = (fs w4)(originals_path a r \<mapsto> File [], translations_path a r \<mapsto> File [])"
      using opened_empty(3) [OF o1 o2 distinct] by (simp add: frame_of_fields)
    have fin: "fs (world_of st) = fs (world_of s2)"
      using cleanup_effect [OF cl] by (simp add: st st1 file_close_fields)
    have d2: "fs w2 ?d = Some Dir"
      using makedirs_rank_dir [OF mk] originals_not_dir [of a r] translations_not_dir [of a r]
      by (simp add: fs2)
    have "fs (world_of s2) ?d = fs w2 ?d"
      using batch_loop_frame [OF loop] originals_not_dir [of a r] translations_not_dir [of a r]
      by (simp add: frame_of_fields)
    with d2 have dir: "fs (world_of s2) ?d = Some Dir" by simp
    have o: "\<exists>cs. fs (world_of s2) (originals_path a r) = Some (File cs)"
      using files_distinct [of a r] by (intro batch_loop_is_file [OF loop]) (simp add: fs2)
    have t: "\<exists>cs. fs (world_of s2) (translations_path a r) = Some (File cs)"
      by (rule batch_loop_is_file [OF loop]) (simp add: fs2)
    from dir o t show ?thesis by (simp add: fin)
  qed
  have file_there: "\<exists>cs. fs w0 ?d = Some (File cs)"
    if "translate L r n a w0 = Inl (FileExistsError p)"
    using translate_errors [OF that] by auto
  have plain: "path_lookup w ?d = fs w ?d"
    using rank_result_dir_tail(2) [of a r] by (simp add: path_lookup_def)
  have nonempty: "?d \<noteq> []"
    using rank_result_dir_last [of a r] by simp
  have absent: "os_makedirs ?d True w = Inr (w\<lparr>fs := (fs w)(?d \<mapsto> Dir)\<rparr>)"
    if "parent_lookup w ?d = Some Dir \<and> fs w ?d = None"
    using that os_makedirs_parent_found [of w ?d Dir True]
    by (simp add: mkdir_leaf_def os_mkdir_def plain nonempty)
  have present: "os_makedirs ?d True w = Inr w"
    if "parent_lookup w ?d = Some Dir \<and> fs w ?d = Some Dir"
    using that os_makedirs_parent_found [of w ?d Dir True]
    by (simp add: mkdir_leaf_def os_mkdir_def plain nonempty)
  have under_file: "os_makedirs ?d True w = Inl (NotADirectoryError ?d)"
    if "parent_lookup w ?d = Some (File cs) \<and> fs w ?d = None"
    using that os_makedirs_parent_found [of w ?d "File cs" True]
    by (simp add: mkdir_leaf_def os_mkdir_def plain nonempty)
  have made: "fs w' ?d = Some Dir
         \<and> (\<forall>q. fs w' q = fs w q \<or> (fs w q = None \<and> fs w' q = Some Dir))"
    if "os_makedirs ?d True w = Inr w'"
    using makedirs_rank_dir [OF that] os_makedirs_frame [OF that] by blast
  have failed: "(e = FileExistsError ?d \<and> (\<exists>cs. fs w ?d = Some (File cs)))
         \<or> (\<exists>p. e = NotADirectoryError p) \<or> (\<exists>p. e = FileNotFoundError p)"
    if "os_makedirs ?d True w = Inl e"
    using os_makedirs_Inl [OF that] .
  show ?thesis
    apply (intro conjI impI)
              apply (simp add: rank_result_dir_def)
             apply (rule path)
            apply (simp add: frame_of_fields originals_path_def)
           apply (simp add: frame_of_fields translations_path_def)
          apply (erule completed [THEN conjunct1])
         apply (erule completed [THEN conjunct2, THEN conjunct1])
        apply (erule completed [THEN conjunct2, THEN conjunct2])
       apply (erule absent)
      apply (erule present)
     apply (erule under_file)
     apply (erule made [THEN conjunct1])
    apply (erule made [THEN conjunct2])
    apply (erule failed)
    apply (erule file_there)
    done
qed

theorem rank_output_directory_witness:
  "rank_result_dir example_args 0 = ''out/rank0''
   \<and> originals_file_name (frame_of 0 example_args ''mt.nemo'' ''mt.nemo'') =
       ''out/rank0/originals.txt''
   \<and> translations_file_name (frame_of 0 example_args ''mt.nemo'' ''mt.nemo'') =
       ''out/rank0/translations.txt''
   \<and> \<not> isl (translate example_lib 0 1 example_args example_world)
   \<and> fs (world_of (projr (translate example_lib 0 1 example_args example_world)))
        ''out/rank0'' = Some Dir
   \<and> fs example_world ''out/rank0'' = Some Dir
   \<and> os_makedirs ''out/rank0'' True example_world = Inr example_world
   \<and> fs example_world ''out/rank1'' = None
   \<and> os_makedirs ''out/rank1'' True example_world =
       Inr (example_world\<lparr>fs := (fs example_world)(''out/rank1'' \<mapsto> Dir)\<rparr>)
   \<and> os_makedirs ''out/rank1'' True
        (example_world\<lparr>fs := (fs example_world)(''out'' \<mapsto> File [])\<rparr>) =
       Inl (NotADirectoryError ''out/rank1'')"
proof -
  from example_run obtain st where
    run: "translate example_lib 0 1 example_args example_world = Inr st"
    by blast
  let ?under = "example_world\<lparr>fs := (fs example_world)(''out'' \<mapsto> File [])\<rparr>"
  have w0: "fs example_world ''out/rank0'' = Some Dir" "fs example_world ''out/rank1'' = None"
    "fs ?under ''out/rank1'' = None"
    by (simp_all add: example_world_def)
  have split1: "makedirs_split ''out/rank1'' = (''out'', ''rank1'')"
    by (simp add: makedirs_split_def path_split_def Let_def all_slashes_def rstrip_slashes_def)
  have parents: "parent_lookup example_world ''out/rank0'' = Some Dir"
    "parent_lookup example_world ''out/rank1'' = Some Dir"
    "parent_lookup ?under ''out/rank1'' = Some (File [])"
    by (simp_all add: parent_lookup_def example_split split1 path_lookup_def all_slashes_def
        example_world_def)
  note at0 = rank_output_directory [of example_args 0 "''mt.nemo''" "''mt.nemo''" example_lib 1
      example_world st example_world, unfolded example_dir]
  note at1 = rank_output_directory [of example_args 1 _ _ _ _ _ _ example_world,
      unfolded example_dir1]
  note under = rank_output_directory [of example_args 1 _ _ _ _ _ _ ?under "[]",
      unfolded example_dir1]
  have c1: "fs (world_of st) ''out/rank0'' = Some Dir"
    using at0 [THEN conjunct2, THEN conjunct2, THEN conjunct2, THEN conjunct2,
        THEN conjunct1, THEN mp, OF run]
    by simp
  have c2: "os_makedirs ''out/rank0'' True example_world = Inr example_world"
    by (rule at0 [THEN conjunct2, THEN conjunct2, THEN conjunct2, THEN conjunct2,
        THEN conjunct2, THEN conjunct2, THEN conjunct1, THEN mp,
        OF conjI [OF parents(1) w0(1)]])
  have c3: "os_makedirs ''out/rank1'' True example_world =
       Inr (example_world\<lparr>fs := (fs example_world)(''out/rank1'' \<mapsto> Dir)\<rparr>)"
    by (rule at1 [THEN conjunct2, THEN conjunct2, THEN conjunct2, THEN conjunct2,
        THEN conjunct2, THEN conjunct1, THEN mp, OF conjI [OF parents(2) w0(2)]])
  have c4: "os_makedirs ''out/rank1'' True ?under = Inl (NotADirectoryError ''out/rank1'')"
    by (rule under [THEN conjunct2, THEN conjunct2, THEN conjunct2, THEN conjunct2,
        THEN conjunct2, THEN conjunct2, THEN conjunct2, THEN conjunct1, THEN mp,
        OF conjI [OF parents(3) w0(3)]])
  have names: "originals_file_name (frame_of 0 example_args ''mt.nemo'' ''mt.nemo'') =
       ''out/rank0/originals.txt''"
    "translations_file_name (frame_of 0 example_args ''mt.nemo'' ''mt.nemo'') =
       ''out/rank0/translations.txt''"
    by (simp_all add: example_frame)
  show ?thesis
    unfolding run by (simp add: example_dir names c1 c2 c3 c4 w0)
qed

subsection \<open>The tensors of a batch (C9)\<close>



subsection \<open>The sub-word detokenizer is bound (C10)\<close>

text \<open>
  Claim C10. When \<^verbatim>\<open>target_lang\<close> is not the empty string, the condition
  \<^verbatim>\<open>args.target_lang or args.source_lang == 'ja'\<close> holds whatever \<^verbatim>\<open>source_lang\<close>
  is, so the name \<^verbatim>\<open>sp_detokenizer\<close> is bound to a \<^verbatim>\<open>SentencePieceDetokenizer\<close>;
  neither of the two lines of the write loop that use it, nor the procedure as a whole,
  can end in that name being unbound.
\<close>

theorem sp_detokenizer_always_bound:
  assumes "target_lang a \<noteq> []"
  shows "sp_condition a
       \<and> select_sp_detokenizer a = Some SentencePieceDetokenizer
       \<and> sp_detokenizer (frame_of r a m ddp) = Some SentencePieceDetokenizer
       \<and> translation_line L (frame_of r a m ddp) t \<noteq> Inl (UnboundLocalError ''sp_detokenizer'')
       \<and> original_line L (frame_of r a m ddp) t \<noteq> Inl (UnboundLocalError ''sp_detokenizer'')
       \<and> translate L r n a w0 \<noteq> Inl (UnboundLocalError ''sp_detokenizer'')"
proof -
  have c: "sp_condition a" using assms by (simp add: sp_condition_def)
  then have b: "select_sp_detokenizer a = Some SentencePieceDetokenizer"
    by (simp add: select_sp_detokenizer_def)
  have tl: "translation_line L (frame_of r a m ddp) t \<noteq> Inl (UnboundLocalError ''sp_detokenizer'')"
    using translation_line_Inl [OF _ frame_of_bound(1,2), of L r a m ddp t] by auto
  have ol: "original_line L (frame_of r a m ddp) t \<noteq> Inl (UnboundLocalError ''sp_detokenizer'')"
    using original_line_Inl [OF _ frame_of_bound(1,3), of L r a m ddp t] by auto
  have tr: "translate L r n a w0 \<noteq> Inl (UnboundLocalError ''sp_detokenizer'')"
    using translate_errors [of L r n a w0 "UnboundLocalError ''sp_detokenizer''"] by auto
  from c b tl ol tr show ?thesis by (simp add: frame_of_fields)
qed

theorem sp_detokenizer_always_bound_witness:
  "sp_condition (example_args\<lparr>target_lang := ''ja''\<rparr>)
   \<and> sp_detokenizer (frame_of 0 (example_args\<lparr>target_lang := ''ja''\<rparr>) ''mt.nemo'' ''mt.nemo'')
       = Some SentencePieceDetokenizer
   \<and> translation_line example_lib
        (frame_of 0 (example_args\<lparr>target_lang := ''ja''\<rparr>) ''mt.nemo'' ''mt.nemo'')
        (example_row ''a b'')
       = Inr ''a_b''
   \<and> translate example_lib 0 1 (example_args\<lparr>target_lang := ''ja''\<rparr>) example_world
       \<noteq> Inl (UnboundLocalError ''sp_detokenizer'')"
proof -
  have ne: "target_lang (example_args\<lparr>target_lang := ''ja''\<rparr>) \<noteq> []" by simp
  have line: "translation_line example_lib
        (frame_of 0 (example_args\<lparr>target_lang := ''ja''\<rparr>) ''mt.nemo'' ''mt.nemo'')
        (example_row ''a b'')
       = Inr ''a_b''"
    by (simp add: translation_line_def frame_of_def select_sp_detokenizer_def sp_condition_def
        select_target_detokenizer_def example_lib_def ids_text_example_row split_def is_space_def)
  from sp_detokenizer_always_bound [OF ne, of 0 "''mt.nemo''" "''mt.nemo''" example_lib _ 1 example_world]
    line
  show ?thesis by simp
qed

end
